theory Spec2Isabelle
  imports Complex_Main
begin

section \<open>Data model of \<open>scripts/pf.py\<close>\<close>

text \<open>
  Python floats (and numpy float64 values) are modelled as mathematical reals: rounding
  error, infinities and NaN are outside the model. The one NaN the code manipulates on
  purpose (the "not yet filled" marker of the expected-range array) is modelled as
  \<open>None\<close>.

  \<open>Particle\<close> and \<open>PoseTuple\<close> are the two namedtuples of the source, with the fields in
  the order of their constructors.
\<close>

datatype Particle = Particle (x_of: real) (y_of: real) (theta_of: real) (weight: real)

datatype PoseTuple = PoseTuple (pose_x: real) (pose_y: real) (pose_theta: real)

text \<open>The exceptions the modelled code can raise.\<close>

datatype py_exn = ZeroDivisionError | ValueError | IndexError

text \<open>
  A list comprehension whose element expression can raise: the elements are evaluated
  from left to right and the first exception leaves the comprehension.
\<close>

fun comprehension :: "('a \<Rightarrow> py_exn + 'b) \<Rightarrow> 'a list \<Rightarrow> py_exn + 'b list" where
  "comprehension f [] = Inr []"
| "comprehension f (a # as) =
     (case f a of
        Inl e \<Rightarrow> Inl e
      | Inr b \<Rightarrow> (case comprehension f as of Inl e \<Rightarrow> Inl e | Inr bs \<Rightarrow> Inr (b # bs)))"

text \<open>
  Python's \<open>/\<close>. A zero divisor is the error value: Python numbers raise
  \<open>ZeroDivisionError\<close> there (numpy scalars produce nan or inf with a warning instead;
  the model flags the zero divisor in both cases).
\<close>

definition truediv :: "real \<Rightarrow> real \<Rightarrow> py_exn + real" where
  "truediv a b = (if b = 0 then Inl ZeroDivisionError else Inr (a / b))"

section \<open>\<open>normalize_weights\<close>\<close>

text \<open>
  \<^verbatim>\<open>
  def normalize_weights(self, particles):
      total = sum(p.weight for p in particles)
      return [Particle(p.x, p.y, p.theta, p.weight / total) for p in particles]
  \<close>
\<close>

definition normalize_weights :: "Particle list \<Rightarrow> py_exn + Particle list" where
  "normalize_weights ps =
     (let total = sum_list (map weight ps) in
      comprehension
        (\<lambda>p. case truediv (weight p) total of
               Inl e \<Rightarrow> Inl e
             | Inr w \<Rightarrow> Inr (Particle (x_of p) (y_of p) (theta_of p) w))
        ps)"

text \<open>The pose part of a particle, and the invariant of the data model on weights.\<close>

definition pose_of :: "Particle \<Rightarrow> PoseTuple" where
  "pose_of p = PoseTuple (x_of p) (y_of p) (theta_of p)"

definition nonneg_weights :: "Particle list \<Rightarrow> bool" where
  "nonneg_weights ps = list_all (\<lambda>p. 0 \<le> weight p) ps"

definition some_positive_weight :: "Particle list \<Rightarrow> bool" where
  "some_positive_weight ps = list_ex (\<lambda>p. 0 < weight p) ps"

definition all_zero_weights :: "Particle list \<Rightarrow> bool" where
  "all_zero_weights ps = list_all (\<lambda>p. weight p = 0) ps"

section \<open>Sensor likelihood model: \<open>calculate_sensor_weight\<close>\<close>

text \<open>
  The numeric primitives of numpy the function uses. \<open>arctan2\<close> is the two-argument
  arctangent with values in \<open>(-pi, pi]\<close> (over the reals there is no signed zero, so
  \<open>-pi\<close> itself is never produced). \<open>np_round\<close> is \<open>ndarray.round()\<close>: rounding to the
  nearest integer, ties to the even one, the result still a float. \<open>py_int\<close> is
  \<open>int(...)\<close> on a float: truncation toward zero.
\<close>

definition arctan2 :: "real \<Rightarrow> real \<Rightarrow> real" where
  "arctan2 b a =
     (if 0 < a then arctan (b / a)
      else if a < 0 then (if 0 \<le> b then arctan (b / a) + pi else arctan (b / a) - pi)
      else if 0 < b then pi / 2
      else if b < 0 then - (pi / 2)
      else 0)"

definition rad2deg :: "real \<Rightarrow> real" where
  "rad2deg r = r * 180 / pi"

definition np_round :: "real \<Rightarrow> real" where
  "np_round v =
     (let f = \<lfloor>v\<rfloor>; d = v - of_int f
      in of_int (if d < 1 / 2 then f else if 1 / 2 < d then f + 1
                 else if even f then f else f + 1))"

definition py_int :: "real \<Rightarrow> int" where
  "py_int v = (if 0 \<le> v then \<lfloor>v\<rfloor> else \<lceil>v\<rceil>)"

text \<open>
  Indexing a one-dimensional numpy array of length \<open>n\<close> with a Python int: a negative
  index counts from the end, anything outside \<open>[-n, n)\<close> raises.
\<close>

definition np_index :: "nat \<Rightarrow> int \<Rightarrow> py_exn + nat" where
  "np_index n i =
     (if 0 \<le> i \<and> i < int n then Inr (nat i)
      else if - int n \<le> i \<and> i < 0 then Inr (nat (i + int n))
      else Inl IndexError)"

text \<open>
  Elementwise subtraction of two one-dimensional arrays with numpy's broadcasting: equal
  lengths, or one of the two of length 1; any other pair of shapes raises \<open>ValueError\<close>.
\<close>

definition broadcast_sub :: "real list \<Rightarrow> real list \<Rightarrow> py_exn + real list" where
  "broadcast_sub a b =
     (if length a = length b then Inr (map2 (-) a b)
      else if length a = 1 then Inr (map (\<lambda>e. hd a - e) b)
      else if length b = 1 then Inr (map (\<lambda>e. e - hd b) a)
      else Inl ValueError)"

text \<open>
  Lines 236 to 250: the obstacles shifted to the particle, converted to polar
  coordinates, rotated by the particle's heading, renormalised and rounded to whole
  degrees. Each is a vectorised numpy expression, here a function of one obstacle
  mapped over the obstacle list.
  \<^verbatim>\<open>
  obstacles_shifted = self.map_obstacles - [particle.x, particle.y]
  rho = np.sqrt((obstacles_shifted[:, 0] ** 2) + (obstacles_shifted[:, 1] ** 2))
  phi_rad = np.arctan2(obstacles_shifted[:, 1], obstacles_shifted[:, 0])
  phi_rad += particle.theta
  phi = np.rad2deg(np.arctan2(np.sin(phi_rad), np.cos(phi_rad))).round()
  \<close>
\<close>

definition obstacle_shifted :: "Particle \<Rightarrow> real \<times> real \<Rightarrow> real \<times> real" where
  "obstacle_shifted p ob = (fst ob - x_of p, snd ob - y_of p)"

definition obstacle_rho :: "Particle \<Rightarrow> real \<times> real \<Rightarrow> real" where
  "obstacle_rho p ob =
     (let sh = obstacle_shifted p ob in sqrt ((fst sh)\<^sup>2 + (snd sh)\<^sup>2))"

definition obstacle_phi_rad :: "Particle \<Rightarrow> real \<times> real \<Rightarrow> real" where
  "obstacle_phi_rad p ob =
     (let sh = obstacle_shifted p ob in arctan2 (snd sh) (fst sh) + theta_of p)"

definition renormalize :: "real \<Rightarrow> real" where
  "renormalize a = arctan2 (sin a) (cos a)"

definition obstacle_bearing :: "Particle \<Rightarrow> real \<times> real \<Rightarrow> real" where
  "obstacle_bearing p ob = renormalize (obstacle_phi_rad p ob)"

definition obstacle_phi :: "Particle \<Rightarrow> real \<times> real \<Rightarrow> real" where
  "obstacle_phi p ob = np_round (rad2deg (obstacle_bearing p ob))"

text \<open>
  Lines 257 to 276: the loop that fills the 360-entry expected-range array, \<open>None\<close>
  standing for the NaN the array is initialised with.
  \<^verbatim>\<open>
  for phi, rho in zip(phi, rho):
      idx = int(phi)
      if rho > 3.0:
          rho = 0.0
      if np.isnan(expected_lidar[idx]) or rho < expected_lidar[idx]:
          expected_lidar[idx] = rho
  expected_lidar[np.isnan(expected_lidar)] = 0.0
  \<close>
\<close>

definition cutoff :: "real \<Rightarrow> real" where
  "cutoff rho = (if rho > 3 then 0 else rho)"

fun fill_expected :: "(real \<times> real) list \<Rightarrow> real option list \<Rightarrow> py_exn + real option list" where
  "fill_expected [] expected = Inr expected"
| "fill_expected ((phi, rho) # rest) expected =
     (case np_index (length expected) (py_int phi) of
        Inl e \<Rightarrow> Inl e
      | Inr idx \<Rightarrow>
          fill_expected rest
            (if (case expected ! idx of None \<Rightarrow> True | Some cur \<Rightarrow> cutoff rho < cur)
             then expected[idx := Some (cutoff rho)] else expected))"

definition nan_to_zero :: "real option \<Rightarrow> real" where
  "nan_to_zero v = (case v of None \<Rightarrow> 0 | Some r \<Rightarrow> r)"

definition expected_lidar :: "(real \<times> real) list \<Rightarrow> Particle \<Rightarrow> py_exn + real list" where
  "expected_lidar obstacles p =
     (let rho = map (obstacle_rho p) obstacles;
          phi = map (obstacle_phi p) obstacles
      in case fill_expected (zip phi rho) (replicate 360 None) of
           Inl e \<Rightarrow> Inl e
         | Inr filled \<Rightarrow> Inr (map nan_to_zero filled))"

text \<open>
  Lines 286 to 293: the comparison with the scan. \<open>mask\<close> is computed by the source and
  used by none of its live statements.
  \<^verbatim>\<open>
  mask = actual_lidar > 0.0
  diff_lidar = np.abs(actual_lidar - expected_lidar)
  weight = np.sum((1 / diff_lidar[diff_lidar > 0.0]) ** 3)
  \<close>
\<close>

definition compare_lidar :: "real list \<Rightarrow> real list \<Rightarrow> py_exn + real" where
  "compare_lidar actual_lidar expected =
     (let mask = map (\<lambda>a. 0 < a) actual_lidar in
      case broadcast_sub actual_lidar expected of
        Inl e \<Rightarrow> Inl e
      | Inr d \<Rightarrow>
          let diff_lidar = map abs d
          in Inr (sum_list (map (\<lambda>v. (1 / v) ^ 3) (filter (\<lambda>v. 0 < v) diff_lidar))))"

text \<open>
  The function itself, on the two attributes of the filter it reads: the latest scan
  (\<open>self.last_lidar\<close>, \<open>None\<close> until a scan arrives; its \<open>ranges\<close> otherwise) and
  \<open>self.map_obstacles\<close>. It is only ever called with \<open>save=False\<close>; the plotting
  branches are left out.
\<close>

definition calculate_sensor_weight ::
  "real list option \<Rightarrow> (real \<times> real) list \<Rightarrow> Particle \<Rightarrow> py_exn + real" where
  "calculate_sensor_weight lidar obstacles p =
     (case lidar of
        None \<Rightarrow> Inr 1
      | Some ranges \<Rightarrow>
          let actual_lidar = butlast ranges
          in case expected_lidar obstacles p of
               Inl e \<Rightarrow> Inl e
             | Inr expected \<Rightarrow> compare_lidar actual_lidar expected)"

text \<open>
  Names used in the statements below: the bucket an obstacle lands in (the index
  expression of the loop, \<open>expected_lidar[int(phi)]\<close>), the ranges, after the cutoff, of
  the obstacles that land in a bucket, and the integer \<open>round()\<close> produces. \<open>merge_min\<close>
  is the loop's update of one array cell by the ranges that reach it, in order;
  \<open>valid_entries\<close> and \<open>entries_of\<close> state the loop invariant.
\<close>

definition bucket_of :: "Particle \<Rightarrow> real \<times> real \<Rightarrow> py_exn + nat" where
  "bucket_of p ob = np_index 360 (py_int (obstacle_phi p ob))"

definition bucket_ranges :: "(real \<times> real) list \<Rightarrow> Particle \<Rightarrow> nat \<Rightarrow> real list" where
  "bucket_ranges obstacles p b =
     map (\<lambda>ob. cutoff (obstacle_rho p ob)) (filter (\<lambda>ob. bucket_of p ob = Inr b) obstacles)"

definition rint :: "real \<Rightarrow> int" where
  "rint v = (if v - of_int \<lfloor>v\<rfloor> < 1 / 2 then \<lfloor>v\<rfloor>
             else if 1 / 2 < v - of_int \<lfloor>v\<rfloor> then \<lfloor>v\<rfloor> + 1
             else if even \<lfloor>v\<rfloor> then \<lfloor>v\<rfloor> else \<lfloor>v\<rfloor> + 1)"


fun merge_min :: "real option \<Rightarrow> real list \<Rightarrow> real option" where
  "merge_min v [] = v"
| "merge_min v (r # rs) =
     merge_min (if (case v of None \<Rightarrow> True | Some cur \<Rightarrow> r < cur) then Some r else v) rs"


definition valid_entries :: "nat \<Rightarrow> (real \<times> real) list \<Rightarrow> bool" where
  "valid_entries n es = list_all (\<lambda>e. case np_index n (py_int (fst e)) of Inl _ \<Rightarrow> False | Inr b \<Rightarrow> b < n) es"

definition entries_of :: "nat \<Rightarrow> (real \<times> real) list \<Rightarrow> nat \<Rightarrow> real list" where
  "entries_of n es b = map (\<lambda>e. cutoff (snd e)) (filter (\<lambda>e. np_index n (py_int (fst e)) = Inr b) es)"


section \<open>Randomness and the helper module\<close>

text \<open>
  A random generator is the stream of the uniform draws it will produce, each in
  \<open>[0, 1)\<close>; \<open>random()\<close> takes the first and leaves the rest. The filter uses two
  generators: the one of Python's \<open>random\<close> module and the one behind the sampling
  functions of \<open>helper_functions\<close>.

  \<open>helper_functions\<close> is not among the source files. Its three functions the filter calls
  are taken as parameters: \<open>sample_normal(mean, sigma, noise, range)\<close> and
  \<open>sample_normal_error(value, sigma)\<close>, each reading and advancing a generator, and
  \<open>angle_diff(a, b)\<close>. \<open>convert_pose_to_xy_and_theta\<close> and its inverse only change the
  representation of a pose, which is a \<open>PoseTuple\<close> throughout.
\<close>

type_synonym rng = "nat \<Rightarrow> real"

definition py_random :: "rng \<Rightarrow> real \<times> rng" where
  "py_random g = (g 0, \<lambda>n. g (Suc n))"

definition unit_draws :: "rng \<Rightarrow> bool" where
  "unit_draws g = (\<forall>n. 0 \<le> g n \<and> g n < 1)"

record helpers =
  sample_normal :: "rng \<Rightarrow> real \<Rightarrow> real \<Rightarrow> real \<Rightarrow> real \<times> real \<Rightarrow> real \<times> rng"
  sample_normal_error :: "rng \<Rightarrow> real \<Rightarrow> real \<Rightarrow> real \<times> rng"
  angle_diff :: "real \<Rightarrow> real \<Rightarrow> real"

text \<open>
  An instance for concrete runs: no noise (each sampler returns its mean and leaves the
  generator alone) and the plain difference of the two angles, which is what
  \<open>angle_diff\<close> computes when the angles are less than half a turn apart.
\<close>

definition noiseless :: helpers where
  "noiseless = \<lparr> sample_normal = (\<lambda>g mean sigma noise range. (mean, g)),
                 sample_normal_error = (\<lambda>g v sigma. (v, g)),
                 angle_diff = (\<lambda>a b. a - b) \<rparr>"

section \<open>Resampler: \<open>random.choices\<close> and \<open>sample_particles\<close>\<close>

text \<open>
  \<open>random.choices(population, weights=weights, k=k)\<close> of the standard library (CPython 3.9
  and later): the running sums of the weights, their last element as the total, which
  must be positive, and \<open>k\<close> draws, each located in the running sums by bisection.
  \<^verbatim>\<open>
  n = len(population)
  cum_weights = list(accumulate(weights))
  if len(cum_weights) != n: raise ValueError
  total = cum_weights[-1] + 0.0
  if total <= 0.0: raise ValueError
  hi = n - 1
  return [population[bisect(cum_weights, random() * total, 0, hi)] for i in repeat(None, k)]
  \<close>
  \<open>bisect\<close> is \<open>bisect_right\<close>; it reads \<open>a[mid]\<close> only for \<open>mid < hi\<close>, inside the list.
\<close>

fun accumulate_from :: "real \<Rightarrow> real list \<Rightarrow> real list" where
  "accumulate_from acc [] = []"
| "accumulate_from acc (w # ws) = (acc + w) # accumulate_from (acc + w) ws"

definition accumulate :: "real list \<Rightarrow> real list" where
  "accumulate ws = accumulate_from 0 ws"

function bisect :: "real list \<Rightarrow> real \<Rightarrow> nat \<Rightarrow> nat \<Rightarrow> nat" where
  "bisect a v lo hi =
     (if lo < hi
      then (if v < a ! ((lo + hi) div 2) then bisect a v lo ((lo + hi) div 2)
            else bisect a v ((lo + hi) div 2 + 1) hi)
      else lo)"
  by pat_completeness auto
termination
  by (relation "measure (\<lambda>(a, v, lo, hi). hi - lo)") auto

declare bisect.simps [simp del]

fun draw_weighted :: "'a list \<Rightarrow> real list \<Rightarrow> real \<Rightarrow> nat \<Rightarrow> rng \<Rightarrow> 'a list \<times> rng" where
  "draw_weighted population cum_weights tot 0 g = ([], g)"
| "draw_weighted population cum_weights tot (Suc k) g =
     (case py_random g of
        (u, g1) \<Rightarrow>
          (case draw_weighted population cum_weights tot k g1 of
             (rest, g2) \<Rightarrow>
               (population ! bisect cum_weights (u * tot) 0 (length population - 1) # rest,
                g2)))"

definition choices :: "'a list \<Rightarrow> real list \<Rightarrow> nat \<Rightarrow> rng \<Rightarrow> (py_exn + 'a list) \<times> rng" where
  "choices population weights k g =
     (let n = length population; cum_weights = accumulate weights
      in if length cum_weights \<noteq> n then (Inl ValueError, g)
         else if cum_weights = [] then (Inl IndexError, g)
         else let total = last cum_weights
              in if total \<le> 0 then (Inl ValueError, g)
                 else (case draw_weighted population cum_weights total k g of
                         (chosen, g') \<Rightarrow> (Inr chosen, g')))"

text \<open>
  \<^verbatim>\<open>
  def sample_particles(self, particles, xy_sigma, xy_noise, theta_sigma, theta_noise, k):
      weights = [p.weight for p in particles]
      choices = random.choices(particles, weights=weights, k=k)
      return [Particle(x=sample_normal(choice.x, xy_sigma, xy_noise, (choice.x - 5, choice.x + 5)),
                       y=sample_normal(choice.y, xy_sigma, xy_noise, (choice.y - 5, choice.y + 5)),
                       theta=sample_normal(choice.theta, theta_sigma, theta_noise, (-math.pi, math.pi)),
                       weight=1)
              for choice in choices]
  \<close>
  \<open>jitter\<close> is the comprehension; the generator of the helper module is threaded through
  the three calls of each element. The result carries both generators.
\<close>

fun jitter :: "helpers \<Rightarrow> real \<Rightarrow> real \<Rightarrow> real \<Rightarrow> real \<Rightarrow> Particle list \<Rightarrow> rng \<Rightarrow> Particle list \<times> rng" where
  "jitter H xy_sigma xy_noise theta_sigma theta_noise [] h = ([], h)"
| "jitter H xy_sigma xy_noise theta_sigma theta_noise (choice # rest) h =
     (case sample_normal H h (x_of choice) xy_sigma xy_noise (x_of choice - 5, x_of choice + 5) of
        (nx, h1) \<Rightarrow>
     (case sample_normal H h1 (y_of choice) xy_sigma xy_noise (y_of choice - 5, y_of choice + 5) of
        (ny, h2) \<Rightarrow>
     (case sample_normal H h2 (theta_of choice) theta_sigma theta_noise (- pi, pi) of
        (nt, h3) \<Rightarrow>
     (case jitter H xy_sigma xy_noise theta_sigma theta_noise rest h3 of
        (others, h4) \<Rightarrow> (Particle nx ny nt 1 # others, h4)))))"

definition sample_particles ::
  "helpers \<Rightarrow> Particle list \<Rightarrow> real \<Rightarrow> real \<Rightarrow> real \<Rightarrow> real \<Rightarrow> nat \<Rightarrow> rng \<Rightarrow> rng \<Rightarrow>
   (py_exn + Particle list) \<times> rng \<times> rng" where
  "sample_particles H ps xy_sigma xy_noise theta_sigma theta_noise k g h =
     (case choices ps (map weight ps) k g of
        (Inl e, g') \<Rightarrow> (Inl e, g', h)
      | (Inr chosen, g') \<Rightarrow>
          (case jitter H xy_sigma xy_noise theta_sigma theta_noise chosen h of
             (sampled, h') \<Rightarrow> (Inr sampled, g', h')))"

section \<open>Motion update: \<open>apply_motion\<close>\<close>

text \<open>
  \<^verbatim>\<open>
  dx_robot = sample_normal_error(delta_pose.x, sigma)
  dy_robot = sample_normal_error(delta_pose.y, sigma)
  dtheta = sample_normal_error(delta_pose.theta, sigma)
  rot_dtheta = np.array([[np.cos(dtheta), -np.sin(dtheta)], [np.sin(dtheta), np.cos(dtheta)]])
  dx, dy = np.matmul(rot_dtheta, [dx_robot, dy_robot])
  return [Particle(x=p.x + dx, y=p.y + dy, theta=p.theta - dtheta, weight=p.weight)
          for p in particles]
  \<close>
\<close>

definition apply_motion ::
  "helpers \<Rightarrow> Particle list \<Rightarrow> PoseTuple \<Rightarrow> real \<Rightarrow> rng \<Rightarrow> Particle list \<times> rng" where
  "apply_motion H ps delta_pose sigma h =
     (case sample_normal_error H h (pose_x delta_pose) sigma of
        (dx_robot, h1) \<Rightarrow>
     (case sample_normal_error H h1 (pose_y delta_pose) sigma of
        (dy_robot, h2) \<Rightarrow>
     (case sample_normal_error H h2 (pose_theta delta_pose) sigma of
        (dtheta, h3) \<Rightarrow>
          let dx = cos dtheta * dx_robot - sin dtheta * dy_robot;
              dy = sin dtheta * dx_robot + cos dtheta * dy_robot
          in (map (\<lambda>p. Particle (x_of p + dx) (y_of p + dy) (theta_of p - dtheta) (weight p)) ps,
              h3))))"

section \<open>The filter's state, \<open>set_particles\<close> and \<open>update\<close>\<close>

text \<open>
  The attributes of \<open>ParticleFilter\<close> the modelled methods read or write, and the two
  generators. \<open>robot_pose\<close> is the pose last handed to \<open>fix_map_to_odom_transform\<close>,
  \<open>particle_cloud\<close> the poses last published; time stamps are natural numbers
  (nanoseconds). \<open>nan_weights\<close> says that the weights stored in \<open>particles\<close> are NaN, which
  is what \<open>set_particles\<close> leaves behind after a zero total; the reals have no NaN, and
  the weights stored then are 0.
\<close>

record ParticleFilter =
  particles :: "Particle list option"
  last_pose :: "PoseTuple option"
  last_lidar :: "real list option"
  map_obstacles :: "(real \<times> real) list"
  is_updating :: bool
  last_update :: nat
  last_update_real :: nat
  update_count :: nat
  robot_pose :: "PoseTuple option"
  particle_cloud :: "PoseTuple list"
  random_state :: rng
  sampler_state :: rng
  nan_weights :: bool

datatype Odometry = Odometry (msg_stamp: nat) (msg_pose: PoseTuple)

definition INITIAL_STATE_XY_SIGMA :: real where "INITIAL_STATE_XY_SIGMA = 25 / 100"
definition INITIAL_STATE_XY_NOISE :: real where "INITIAL_STATE_XY_NOISE = 1 / 100"
definition INITIAL_STATE_THETA_SIGMA :: real where "INITIAL_STATE_THETA_SIGMA = 15 / 100 * pi"
definition INITIAL_STATE_THETA_NOISE :: real where "INITIAL_STATE_THETA_NOISE = 0"
definition NUM_PARTICLES :: nat where "NUM_PARTICLES = 300"

text \<open>The filter as \<open>__init__\<close> leaves it, given the obstacles of the map and the generators.\<close>

definition init :: "(real \<times> real) list \<Rightarrow> nat \<Rightarrow> rng \<Rightarrow> rng \<Rightarrow> ParticleFilter" where
  "init obstacles now g h =
     \<lparr> particles = None, last_pose = None, last_lidar = None, map_obstacles = obstacles,
       is_updating = False, last_update = now, last_update_real = now, update_count = 0,
       robot_pose = None, particle_cloud = [], random_state = g, sampler_state = h,
       nan_weights = False \<rparr>"

text \<open>
  \<open>np.average(a, axis=0, weights=w)\<close> on the rows \<open>(x, y, theta)\<close>: the sums of the
  weighted columns over the sum of the weights; a weight list of another length is a
  \<open>ValueError\<close>, weights that sum to zero a \<open>ZeroDivisionError\<close>.
\<close>

definition np_average :: "PoseTuple list \<Rightarrow> real list \<Rightarrow> py_exn + PoseTuple" where
  "np_average a wgt =
     (if length wgt \<noteq> length a then Inl ValueError
      else let scl = sum_list wgt
           in if scl = 0 then Inl ZeroDivisionError
              else Inr (PoseTuple (sum_list (map2 (\<lambda>r w. pose_x r * w) a wgt) / scl)
                                  (sum_list (map2 (\<lambda>r w. pose_y r * w) a wgt) / scl)
                                  (sum_list (map2 (\<lambda>r w. pose_theta r * w) a wgt) / scl)))"

text \<open>
  \<open>random.choices(population, k=k)\<close> without weights:
  \<open>[population[floor(random() * n)] for i in repeat(None, k)]\<close>.
\<close>

fun draw_uniform :: "'a list \<Rightarrow> nat \<Rightarrow> rng \<Rightarrow> (py_exn + 'a list) \<times> rng" where
  "draw_uniform population 0 g = (Inr [], g)"
| "draw_uniform population (Suc k) g =
     (case py_random g of
        (u, g1) \<Rightarrow>
          if nat \<lfloor>u * real (length population)\<rfloor> < length population
          then (case draw_uniform population k g1 of
                  (Inl e, g2) \<Rightarrow> (Inl e, g2)
                | (Inr rest, g2) \<Rightarrow>
                    (Inr (population ! nat \<lfloor>u * real (length population)\<rfloor> # rest), g2))
          else (Inl IndexError, g1))"

text \<open>
  \<^verbatim>\<open>
  def set_particles(self, stamp, particles):
      self.last_update = stamp
      self.particles = self.normalize_weights(particles)
      robot_pose = self.transform_helper.convert_xy_and_theta_to_pose(np.average(
          [(particle.x, particle.y, particle.theta) for particle in self.particles],
          axis=0, weights=[p.weight for p in particles]))
      self.transform_helper.fix_map_to_odom_transform(stamp, robot_pose)
      particles = list(sorted(list(random.choices(self.particles, k=30)), key=lambda p: p.weight))
      ... poses.poses.append(...) for each of them ...
      self.update_count += 1
      self.particle_pub.publish(poses)
  \<close>
  The second component of the result is the exception that left the method, if any; the
  assignments made before it stay.

  A zero total reaches \<open>set_particles\<close> only with numpy scalars as weights (the sums
  \<open>calculate_sensor_weight\<close> returns when there is a scan; the other weights that reach
  it are the constant 1). There the division of \<open>normalize_weights\<close> does not raise: it
  yields NaN weights, line 396 stores them in \<open>self.particles\<close>, and it is \<open>np.average\<close>
  that raises \<open>ZeroDivisionError\<close>, the given weights summing to zero. That is the first
  branch below.
\<close>

definition pose_estimate :: "Particle list \<Rightarrow> Particle list \<Rightarrow> py_exn + PoseTuple" where
  "pose_estimate normalized ps = np_average (map pose_of normalized) (map weight ps)"

definition set_particles :: "nat \<Rightarrow> Particle list \<Rightarrow> ParticleFilter \<Rightarrow> ParticleFilter \<times> py_exn option" where
  "set_particles stamp ps self =
     (case normalize_weights ps of
        Inl e \<Rightarrow>
          (self\<lparr>last_update := stamp,
                particles := Some (map (\<lambda>p. Particle (x_of p) (y_of p) (theta_of p) 0) ps),
                nan_weights := True\<rparr>, Some ZeroDivisionError)
      | Inr normalized \<Rightarrow>
          (case pose_estimate normalized ps of
             Inl e \<Rightarrow>
               (self\<lparr>last_update := stamp, particles := Some normalized,
                     nan_weights := False\<rparr>, Some e)
           | Inr estimate \<Rightarrow>
               (case draw_uniform normalized 30 (random_state self) of
                  (Inl e, g) \<Rightarrow>
                    (self\<lparr>last_update := stamp, particles := Some normalized,
                          nan_weights := False,
                          robot_pose := Some estimate, random_state := g\<rparr>, Some e)
                | (Inr chosen, g) \<Rightarrow>
                    (self\<lparr>last_update := stamp, particles := Some normalized,
                          nan_weights := False,
                          robot_pose := Some estimate, random_state := g,
                          particle_cloud := map pose_of (sort_key weight chosen),
                          update_count := update_count self + 1\<rparr>, None))))"

text \<open>
  \<open>update\<close>, the odometry callback. \<open>now\<close> is what \<open>rospy.Time.now()\<close> returns at the end of
  a cycle. The outcome says which way the call left: dropped by the guard of line 150,
  the initialisation branch of lines 172 to 174, skipped by the minimum-motion check of
  line 184, a full cycle, or an exception (the \<open>finally\<close> clause has run in each case).
\<close>

datatype outcome = Dropped | Initialised | Skipped | Processed | Raised py_exn

definition delta_pose_of :: "helpers \<Rightarrow> PoseTuple \<Rightarrow> PoseTuple \<Rightarrow> PoseTuple" where
  "delta_pose_of H lp cur_pose =
     PoseTuple (pose_x lp - pose_x cur_pose) (pose_y lp - pose_y cur_pose)
               (angle_diff H (pose_theta lp) (pose_theta cur_pose))"

definition moved_too_little :: "PoseTuple \<Rightarrow> bool" where
  "moved_too_little delta_pose =
     (sqrt ((pose_x delta_pose)\<^sup>2 + (pose_y delta_pose)\<^sup>2) < 1 / 100 \<and>
      pose_theta delta_pose < 5 / 100)"

definition reweigh :: "ParticleFilter \<Rightarrow> Particle list \<Rightarrow> py_exn + Particle list" where
  "reweigh self ps =
     comprehension
       (\<lambda>p. case calculate_sensor_weight (last_lidar self) (map_obstacles self) p of
               Inl e \<Rightarrow> Inl e
             | Inr w \<Rightarrow> Inr (Particle (x_of p) (y_of p) (theta_of p) w))
       ps"

text \<open>
  Lines 193 to 204 of a full cycle: resampling, motion and weighing, which assign nothing
  but advance the generators. When the stored weights are NaN, \<open>random.choices\<close> finds
  their total not finite and raises \<open>ValueError\<close> before any draw.
  \<^verbatim>\<open>
  particles = self.sample_particles(self.particles, ..., self.NUM_PARTICLES)
  particles = self.apply_motion(particles, delta_pose, 0.15)
  particles = [Particle(p.x, p.y, p.theta, self.calculate_sensor_weight(p)) for p in particles]
  \<close>
\<close>

definition predict_and_weigh ::
  "helpers \<Rightarrow> Particle list \<Rightarrow> PoseTuple \<Rightarrow> ParticleFilter \<Rightarrow>
   ParticleFilter \<times> (py_exn + Particle list)" where
  "predict_and_weigh H ps delta_pose self =
     (if nan_weights self then (self, Inl ValueError)
      else
       (case sample_particles H ps INITIAL_STATE_XY_SIGMA INITIAL_STATE_XY_NOISE
               INITIAL_STATE_THETA_SIGMA INITIAL_STATE_THETA_NOISE NUM_PARTICLES
               (random_state self) (sampler_state self) of
          (Inl e, g, h) \<Rightarrow> (self\<lparr>random_state := g, sampler_state := h\<rparr>, Inl e)
        | (Inr resampled, g, h) \<Rightarrow>
            (case apply_motion H resampled delta_pose (15 / 100) h of
               (moved, h') \<Rightarrow>
                 (self\<lparr>random_state := g, sampler_state := h'\<rparr>, reweigh self moved))))"

text \<open>
  The cycle from line 187 on: the three steps above, then lines 208 to 210.
  \<^verbatim>\<open>
  self.last_pose = cur_pose
  self.set_particles(msg.header.stamp, particles)
  self.last_update_real = rospy.Time.now()
  \<close>
\<close>

definition run_cycle ::
  "helpers \<Rightarrow> nat \<Rightarrow> Odometry \<Rightarrow> Particle list \<Rightarrow> PoseTuple \<Rightarrow> ParticleFilter \<Rightarrow>
   ParticleFilter \<times> outcome" where
  "run_cycle H now msg ps delta_pose self =
     (case predict_and_weigh H ps delta_pose self of
        (self1, Inl e) \<Rightarrow> (self1, Raised e)
      | (self1, Inr weighted) \<Rightarrow>
          (case set_particles (msg_stamp msg) weighted
                  (self1\<lparr>last_pose := Some (msg_pose msg)\<rparr>) of
             (self', Some e) \<Rightarrow> (self', Raised e)
           | (self', None) \<Rightarrow> (self'\<lparr>last_update_real := now\<rparr>, Processed)))"

definition update_body :: "helpers \<Rightarrow> nat \<Rightarrow> Odometry \<Rightarrow> ParticleFilter \<Rightarrow> ParticleFilter \<times> outcome" where
  "update_body H now msg self =
     (case last_pose self of
        None \<Rightarrow> (self\<lparr>last_pose := Some (msg_pose msg)\<rparr>, Initialised)
      | Some lp \<Rightarrow>
          (case particles self of
             None \<Rightarrow> (self\<lparr>last_pose := Some (msg_pose msg)\<rparr>, Initialised)
           | Some ps \<Rightarrow>
               if moved_too_little (delta_pose_of H lp (msg_pose msg)) then (self, Skipped)
               else run_cycle H now msg ps (delta_pose_of H lp (msg_pose msg)) self))"

definition update :: "helpers \<Rightarrow> nat \<Rightarrow> Odometry \<Rightarrow> ParticleFilter \<Rightarrow> ParticleFilter \<times> outcome" where
  "update H now msg self =
     (if is_updating self \<or> msg_stamp msg < last_update_real self then (self, Dropped)
      else (case update_body H now msg (self\<lparr>is_updating := True\<rparr>) of
              (self', out) \<Rightarrow> (self'\<lparr>is_updating := False\<rparr>, out)))"

text \<open>
  \<open>update_initial_pose\<close> and \<open>on_lidar\<close>, the two other callbacks.
\<close>

definition update_initial_pose ::
  "helpers \<Rightarrow> nat \<Rightarrow> PoseTuple \<Rightarrow> ParticleFilter \<Rightarrow> ParticleFilter \<times> py_exn option" where
  "update_initial_pose H stamp seed self =
     (case sample_particles H [Particle (pose_x seed) (pose_y seed) (pose_theta seed) 1]
             INITIAL_STATE_XY_SIGMA INITIAL_STATE_XY_NOISE
             INITIAL_STATE_THETA_SIGMA INITIAL_STATE_THETA_NOISE NUM_PARTICLES
             (random_state self) (sampler_state self) of
        (Inl e, g, h) \<Rightarrow> (self\<lparr>random_state := g, sampler_state := h\<rparr>, Some e)
      | (Inr sampled, g, h) \<Rightarrow>
          set_particles stamp sampled (self\<lparr>random_state := g, sampler_state := h\<rparr>))"

definition on_lidar :: "real list \<Rightarrow> ParticleFilter \<Rightarrow> ParticleFilter" where
  "on_lidar ranges self = self\<lparr>last_lidar := Some ranges\<rparr>"

text \<open>
  A run of the callback over a sequence of odometry events (each with the clock reading
  at its end), and the runs in which every event is skipped by the minimum-motion check.
\<close>

fun run :: "helpers \<Rightarrow> (nat \<times> Odometry) list \<Rightarrow> ParticleFilter \<Rightarrow> ParticleFilter" where
  "run H [] self = self"
| "run H ((now, msg) # events) self = run H events (fst (update H now msg self))"

fun all_skipped :: "helpers \<Rightarrow> (nat \<times> Odometry) list \<Rightarrow> ParticleFilter \<Rightarrow> bool" where
  "all_skipped H [] self = True"
| "all_skipped H ((now, msg) # events) self =
     (snd (update H now msg self) = Skipped \<and> all_skipped H events (fst (update H now msg self)))"

text \<open>What \<open>normalize_weights\<close> returns when it does not raise.\<close>

definition rescaled :: "Particle list \<Rightarrow> Particle list" where
  "rescaled ps = map (\<lambda>p. Particle (x_of p) (y_of p) (theta_of p)
                              (weight p / sum_list (map weight ps))) ps"


text \<open>
  A filter that has been given an initial pose at the origin by \<open>update_initial_pose\<close>
  with the noiseless helpers (300 particles at the origin, normalised) and last processed
  the odometry pose \<open>(0, 0, 0)\<close>; and names for the three tests \<open>update\<close> makes.
\<close>

definition settled :: ParticleFilter where
  "settled = (init [] 0 (\<lambda>n. 0) (\<lambda>n. 0))
               \<lparr> particles := Some (replicate 300 (Particle 0 0 0 (1 / 300))),
                 last_pose := Some (PoseTuple 0 0 0) \<rparr>"


definition guard_drops :: "Odometry \<Rightarrow> ParticleFilter \<Rightarrow> bool" where
  "guard_drops msg self = (is_updating self \<or> msg_stamp msg < last_update_real self)"

definition uninitialised :: "ParticleFilter \<Rightarrow> bool" where
  "uninitialised self = (last_pose self = None \<or> particles self = None)"

definition cycle_delta :: "helpers \<Rightarrow> Odometry \<Rightarrow> ParticleFilter \<Rightarrow> PoseTuple" where
  "cycle_delta H msg self = delta_pose_of H (the (last_pose self)) (msg_pose msg)"

text \<open>
  The calls of \<open>update\<close> that assign \<open>self.last_pose\<close>: those that pass the guard and
  either take the initialisation branch or get to line 208, which is to say that the
  filter is initialised, the delta passes the minimum-motion check and resampling,
  motion and weighing do not raise. \<open>latest_recorded\<close> follows a run of the callback and
  keeps the pose of the latest such call.
\<close>

definition reaches_assignment :: "helpers \<Rightarrow> Odometry \<Rightarrow> ParticleFilter \<Rightarrow> bool" where
  "reaches_assignment H msg self =
     (\<not> uninitialised self \<and> \<not> moved_too_little (cycle_delta H msg self) \<and>
      (case snd (predict_and_weigh H (the (particles self)) (cycle_delta H msg self)
                   (self\<lparr>is_updating := True\<rparr>)) of
         Inl e \<Rightarrow> False
       | Inr weighted \<Rightarrow> True))"

definition records_pose :: "helpers \<Rightarrow> Odometry \<Rightarrow> ParticleFilter \<Rightarrow> bool" where
  "records_pose H msg self =
     (\<not> guard_drops msg self \<and> (uninitialised self \<or> reaches_assignment H msg self))"

fun latest_recorded ::
  "helpers \<Rightarrow> (nat \<times> Odometry) list \<Rightarrow> ParticleFilter \<Rightarrow> PoseTuple option \<Rightarrow> PoseTuple option" where
  "latest_recorded H [] self a = a"
| "latest_recorded H ((now, msg) # events) self a =
     latest_recorded H events (fst (update H now msg self))
       (if records_pose H msg self then Some (msg_pose msg) else a)"


section \<open>Properties of \<open>normalize_weights\<close>\<close>

lemma comprehension_total:
  "comprehension (\<lambda>a. Inr (g a)) as = Inr (map g as)"
  by (induction as) simp_all

lemma comprehension_raises:
  "as \<noteq> [] \<Longrightarrow> comprehension (\<lambda>a. Inl e) as = Inl e"
  by (cases as) simp_all

lemma normalize_weights_nonzero:
  "sum_list (map weight ps) \<noteq> 0 \<Longrightarrow>
   normalize_weights ps =
     Inr (map (\<lambda>p. Particle (x_of p) (y_of p) (theta_of p)
                     (weight p / sum_list (map weight ps))) ps)"
  by (simp add: normalize_weights_def truediv_def comprehension_total)

lemma normalize_weights_zero:
  "ps \<noteq> [] \<Longrightarrow> sum_list (map weight ps) = 0 \<Longrightarrow>
   normalize_weights ps = Inl ZeroDivisionError"
  by (simp add: normalize_weights_def truediv_def comprehension_raises)

lemma sum_list_divide_const:
  fixes c :: real
  shows "sum_list (map (\<lambda>p. f p / c) ps) = sum_list (map f ps) / c"
  by (induction ps) (simp_all add: add_divide_distrib)

lemma nonneg_total:
  "nonneg_weights ps \<Longrightarrow> 0 \<le> sum_list (map weight ps)"
  by (induction ps) (simp_all add: nonneg_weights_def)

lemma positive_total:
  "nonneg_weights ps \<Longrightarrow> some_positive_weight ps \<Longrightarrow> 0 < sum_list (map weight ps)"
proof (induction ps)
  case Nil
  then show ?case by (simp add: some_positive_weight_def)
next
  case (Cons p ps)
  have nn: "0 \<le> sum_list (map weight ps)"
    using Cons.prems(1) nonneg_total [of ps] by (simp add: nonneg_weights_def)
  show ?case
  proof (cases "0 < weight p")
    case True
    then show ?thesis using nn by simp
  next
    case False
    then have "some_positive_weight ps" "nonneg_weights ps" "0 \<le> weight p"
      using Cons.prems by (simp_all add: some_positive_weight_def nonneg_weights_def)
    then show ?thesis using Cons.IH by simp
  qed
qed

lemma zero_total:
  "all_zero_weights ps \<Longrightarrow> sum_list (map weight ps) = 0"
  by (induction ps) (simp_all add: all_zero_weights_def)

text \<open>
  C6. For every particle list whose weights have a strictly positive total,
  \<open>normalize_weights\<close> returns (without raising) a list of the same length in which
  every particle keeps its x, y and theta and the weights sum to 1. Over the reals the
  sum is exactly 1, which is the statement "1 within floating tolerance" with the
  rounding error idealised away.
\<close>

theorem normalize_weights_sums_to_one:
  assumes "0 < sum_list (map weight ps)"
  shows "\<exists>qs. normalize_weights ps = Inr qs \<and> length qs = length ps \<and>
              map pose_of qs = map pose_of ps \<and> sum_list (map weight qs) = 1"
proof -
  let ?t = "sum_list (map weight ps)"
  let ?qs = "map (\<lambda>p. Particle (x_of p) (y_of p) (theta_of p) (weight p / ?t)) ps"
  have ne: "?t \<noteq> 0" using assms by simp
  have "normalize_weights ps = Inr ?qs"
    using ne by (rule normalize_weights_nonzero)
  moreover have "length ?qs = length ps" by simp
  moreover have "map pose_of ?qs = map pose_of ps" by (simp add: pose_of_def)
  moreover have "sum_list (map weight ?qs) = 1"
    using ne by (simp add: o_def sum_list_divide_const)
  ultimately show ?thesis by blast
qed

theorem normalize_weights_sums_to_one_witness:
  "0 < sum_list (map weight [Particle 1 2 3 1, Particle 4 5 6 3]) \<and>
   (\<exists>qs. normalize_weights [Particle 1 2 3 1, Particle 4 5 6 3] = Inr qs \<and>
         length qs = length [Particle 1 2 3 1, Particle 4 5 6 3] \<and>
         map pose_of qs = map pose_of [Particle 1 2 3 1, Particle 4 5 6 3] \<and>
         sum_list (map weight qs) = 1)"
proof -
  have h: "0 < sum_list (map weight [Particle 1 2 3 1, Particle 4 5 6 3])" by simp
  show ?thesis using h normalize_weights_sums_to_one [OF h] by blast
qed

text \<open>
  C10. \<open>normalize_weights\<close> divides every weight by the total with no guard. When the
  total is nonzero no division fails and the result is the list of rescaled particles;
  for a particle set of the data model (weights non-negative) with at least one
  strictly positive weight the total is positive, so the error is unreachable; a
  population whose weights are all zero reaches the division by zero at its first
  particle.
\<close>

theorem normalize_weights_division_safety:
  "(sum_list (map weight ps) \<noteq> 0 \<longrightarrow>
      normalize_weights ps =
        Inr (map (\<lambda>p. Particle (x_of p) (y_of p) (theta_of p)
                        (weight p / sum_list (map weight ps))) ps)) \<and>
   (nonneg_weights ps \<and> some_positive_weight ps \<longrightarrow>
      normalize_weights ps \<noteq> Inl ZeroDivisionError \<and> (\<exists>qs. normalize_weights ps = Inr qs)) \<and>
   (ps \<noteq> [] \<and> all_zero_weights ps \<longrightarrow> normalize_weights ps = Inl ZeroDivisionError)"
proof (intro conjI impI)
  assume "sum_list (map weight ps) \<noteq> 0"
  then show "normalize_weights ps =
        Inr (map (\<lambda>p. Particle (x_of p) (y_of p) (theta_of p)
                        (weight p / sum_list (map weight ps))) ps)"
    by (rule normalize_weights_nonzero)
next
  assume a: "nonneg_weights ps \<and> some_positive_weight ps"
  then have "sum_list (map weight ps) \<noteq> 0"
    using positive_total [of ps] by simp
  then have eq: "normalize_weights ps =
        Inr (map (\<lambda>p. Particle (x_of p) (y_of p) (theta_of p)
                        (weight p / sum_list (map weight ps))) ps)"
    by (rule normalize_weights_nonzero)
  show "normalize_weights ps \<noteq> Inl ZeroDivisionError" using eq by simp
  show "\<exists>qs. normalize_weights ps = Inr qs" using eq by blast
next
  assume a: "ps \<noteq> [] \<and> all_zero_weights ps"
  then show "normalize_weights ps = Inl ZeroDivisionError"
    using normalize_weights_zero [of ps] zero_total [of ps] by simp
qed

theorem normalize_weights_division_safety_witness:
  "sum_list (map weight [Particle 0 0 0 2, Particle 1 1 1 0]) \<noteq> 0 \<and>
   nonneg_weights [Particle 0 0 0 2, Particle 1 1 1 0] \<and>
   some_positive_weight [Particle 0 0 0 2, Particle 1 1 1 0] \<and>
   normalize_weights [Particle 0 0 0 2, Particle 1 1 1 0] =
     Inr [Particle 0 0 0 1, Particle 1 1 1 0] \<and>
   [Particle 0 0 0 0, Particle 1 1 1 0] \<noteq> [] \<and>
   all_zero_weights [Particle 0 0 0 0, Particle 1 1 1 0] \<and>
   normalize_weights [Particle 0 0 0 0, Particle 1 1 1 0] = Inl ZeroDivisionError"
  using normalize_weights_division_safety [of "[Particle 0 0 0 2, Particle 1 1 1 0]"]
        normalize_weights_division_safety [of "[Particle 0 0 0 0, Particle 1 1 1 0]"]
  by (simp add: nonneg_weights_def some_positive_weight_def all_zero_weights_def)

section \<open>Properties of the sensor likelihood model\<close>

subsection \<open>The two-argument arctangent and the renormalisation\<close>

lemma cos_sign_mid: "- (pi / 2) < a \<Longrightarrow> a < pi / 2 \<Longrightarrow> 0 < cos a"
  by (rule cos_gt_zero_pi)

lemma cos_sign_hi: "pi / 2 < a \<Longrightarrow> a \<le> pi \<Longrightarrow> cos a < 0"
proof -
  assume h: "pi / 2 < a" "a \<le> pi"
  have "cos a < cos (pi / 2)"
    by (rule cos_monotone_0_pi) (use h pi_gt_zero in simp_all)
  then show ?thesis by simp
qed

lemma cos_sign_lo: "- pi < a \<Longrightarrow> a < - (pi / 2) \<Longrightarrow> cos a < 0"
proof -
  assume h: "- pi < a" "a < - (pi / 2)"
  have "cos (- a) < 0" by (rule cos_sign_hi) (use h in simp_all)
  then show ?thesis by simp
qed

lemma arctan2_polar:
  assumes r: "0 < r" and lo: "- pi < a" and hi: "a \<le> pi"
  shows "arctan2 (r * sin a) (r * cos a) = a"
proof -
  have q: "r * sin a / (r * cos a) = tan a" using r by (simp add: tan_def)
  consider "- (pi / 2) < a" "a < pi / 2" | "pi / 2 < a" | "a < - (pi / 2)" | "a = pi / 2" | "a = - (pi / 2)"
    by linarith
  then show ?thesis
  proof cases
    case 1
    then have "0 < cos a" by (rule cos_sign_mid)
    then have "0 < r * cos a" using r by simp
    then have "arctan2 (r * sin a) (r * cos a) = arctan (tan a)"
      unfolding arctan2_def q by simp
    then show ?thesis using 1 by (simp add: arctan_tan)
  next
    case 2
    then have c: "cos a < 0" using hi by (rule cos_sign_hi)
    have s: "0 \<le> sin a" by (rule sin_ge_zero) (use 2 hi pi_gt_zero in simp_all)
    have ca: "r * cos a < 0" using c r by (simp add: mult_pos_neg)
    have sa: "0 \<le> r * sin a" using s r by simp
    have e1: "arctan2 (r * sin a) (r * cos a) = arctan (tan a) + pi"
      unfolding arctan2_def q using ca sa by simp
    have "tan (a - pi) = tan a" using tan_periodic_pi [of "a - pi"] by simp
    then have "arctan (tan a) = arctan (tan (a - pi))" by (rule arg_cong [OF sym])
    also have "\<dots> = a - pi"
      by (rule arctan_tan) (use 2 hi in simp_all)
    finally show ?thesis using e1 by linarith
  next
    case 3
    then have c: "cos a < 0" using lo by (intro cos_sign_lo)
    have "0 < sin (- a)" by (rule sin_gt_zero) (use 3 lo pi_gt_zero in simp_all)
    then have s: "sin a < 0" by simp
    have ca: "r * cos a < 0" using c r by (simp add: mult_pos_neg)
    have sa: "r * sin a < 0" using s r by (simp add: mult_pos_neg)
    have e1: "arctan2 (r * sin a) (r * cos a) = arctan (tan a) - pi"
      unfolding arctan2_def q using ca sa by simp
    have "tan (a + pi) = tan a" by (rule tan_periodic_pi)
    then have "arctan (tan a) = arctan (tan (a + pi))" by (rule arg_cong [OF sym])
    also have "\<dots> = a + pi"
      by (rule arctan_tan) (use 3 lo in simp_all)
    finally show ?thesis using e1 by linarith
  next
    case 4
    show ?thesis unfolding 4 using r by (simp add: arctan2_def)
  next
    case 5
    show ?thesis unfolding 5 using r by (simp add: arctan2_def)
  qed
qed

lemma renormalize_id: "- pi < a \<Longrightarrow> a \<le> pi \<Longrightarrow> renormalize a = a"
  using arctan2_polar [of 1 a] by (simp add: renormalize_def)

lemma renormalize_periodic: "renormalize (a + 2 * pi * of_int k) = renormalize a"
proof -
  have "sin (a + 2 * pi * of_int k) = sin a" "cos (a + 2 * pi * of_int k) = cos a"
    by (simp_all add: sin_add cos_add sin_int_2pin cos_int_2pin)
  then show ?thesis by (simp add: renormalize_def)
qed

lemma renormalize_representative:
  "\<exists>k::int. renormalize a = a + 2 * pi * of_int k \<and> - pi < renormalize a \<and> renormalize a \<le> pi"
proof -
  define q where "q = (a - pi) / (2 * pi)"
  define m :: real where "m = of_int \<lceil>q\<rceil>"
  define k :: int where "k = - \<lceil>q\<rceil>"
  define a' where "a' = a + 2 * pi * of_int k"
  have p: "0 < 2 * pi" using pi_gt_zero by simp
  have qa: "q * (2 * pi) = a - pi" using p by (simp add: q_def)
  have c1: "q \<le> m" unfolding m_def by (rule le_of_int_ceiling)
  have c2: "m < q + 1" unfolding m_def using ceiling_correct [of q] by linarith
  have "q * (2 * pi) \<le> m * (2 * pi)"
    using c1 p by (simp only: mult_le_cancel_right_pos)
  then have b1: "a - pi \<le> m * (2 * pi)" using qa by simp
  have "m * (2 * pi) < (q + 1) * (2 * pi)"
    using c2 p by (simp only: mult_less_cancel_right_pos)
  then have b2: "m * (2 * pi) < a + pi" using qa by (simp add: algebra_simps)
  have a'm: "a' = a - m * (2 * pi)" by (simp add: a'_def k_def m_def)
  have r: "- pi < a'" "a' \<le> pi" unfolding a'm using b1 b2 by linarith+
  then have "renormalize a' = a'" by (rule renormalize_id)
  moreover have "renormalize a' = renormalize a" unfolding a'_def by (rule renormalize_periodic)
  ultimately have e: "renormalize a = a'" by simp
  have "renormalize a = a + 2 * pi * of_int k" using e by (simp add: a'_def)
  moreover have "- pi < renormalize a" "renormalize a \<le> pi" using e r by simp_all
  ultimately show ?thesis by blast
qed

subsection \<open>Rounding to whole degrees and the bucket index\<close>

lemma np_round_rint: "np_round v = of_int (rint v)"
  by (simp add: np_round_def rint_def Let_def)

lemma py_int_of_int: "py_int (of_int k) = k"
  by (simp add: py_int_def)

lemma rint_near: "\<bar>of_int (rint v) - v\<bar> \<le> 1 / 2"
proof -
  have "of_int \<lfloor>v\<rfloor> \<le> v" "v < of_int \<lfloor>v\<rfloor> + 1" by linarith+
  then show ?thesis by (auto simp: rint_def)
qed

lemma rint_tie_even: "v - of_int \<lfloor>v\<rfloor> = 1 / 2 \<Longrightarrow> even (rint v)"
  by (simp add: rint_def)

lemma rint_range:
  assumes "- 180 < v" "v \<le> 180"
  shows "- 180 \<le> rint v" "rint v \<le> 180"
proof -
  have n: "\<bar>of_int (rint v) - v\<bar> \<le> 1 / 2" by (rule rint_near)
  have "(- 181 :: real) < of_int (rint v)" using n assms by linarith
  then have "(- 181 :: int) < rint v" by linarith
  then show "- 180 \<le> rint v" by simp
  have "of_int (rint v) < (181 :: real)" using n assms by linarith
  then have "rint v < (181 :: int)" by linarith
  then show "rint v \<le> 180" by simp
qed

lemma rad2deg_range: "- pi < a \<Longrightarrow> a \<le> pi \<Longrightarrow> - 180 < rad2deg a \<and> rad2deg a \<le> 180"
proof -
  assume a: "- pi < a" "a \<le> pi"
  define t where "t = a / pi"
  have p: "0 < pi" by (rule pi_gt_zero)
  have e: "rad2deg a = t * 180" by (simp add: rad2deg_def t_def)
  have "- 1 < t" using a p by (simp add: t_def pos_less_divide_eq)
  moreover have "t \<le> 1" using a p by (simp add: t_def pos_divide_le_eq)
  ultimately have "- 180 < t * 180" "t * 180 \<le> 180" by simp_all
  then show ?thesis by (simp only: e)
qed

lemma bearing_range: "- pi < obstacle_bearing p ob \<and> obstacle_bearing p ob \<le> pi"
  using renormalize_representative [of "obstacle_phi_rad p ob"]
  by (auto simp: obstacle_bearing_def)

lemma idx_range:
  "- 180 \<le> py_int (obstacle_phi p ob) \<and> py_int (obstacle_phi p ob) \<le> 180"
proof -
  have "- 180 < rad2deg (obstacle_bearing p ob) \<and> rad2deg (obstacle_bearing p ob) \<le> 180"
    using bearing_range [of p ob] by (simp add: rad2deg_range)
  then show ?thesis
    using rint_range [of "rad2deg (obstacle_bearing p ob)"]
    by (simp add: obstacle_phi_def np_round_rint py_int_of_int)
qed

lemma neg_mod_360: "- 360 \<le> i \<Longrightarrow> i < 0 \<Longrightarrow> i mod 360 = i + (360 :: int)"
  by presburger

lemma np_index_mod:
  "- 180 \<le> i \<Longrightarrow> i \<le> 180 \<Longrightarrow> np_index 360 i = Inr (nat (i mod 360)) \<and> nat (i mod 360) < 360"
proof (cases "0 \<le> i")
  case True
  assume "i \<le> 180"
  then show ?thesis using True by (simp add: np_index_def mod_pos_pos_trivial)
next
  case False
  assume "- 180 \<le> i"
  then show ?thesis using False by (simp add: np_index_def neg_mod_360)
qed

lemma bucket_of_valid: "\<exists>b. bucket_of p ob = Inr b \<and> b < 360"
  using idx_range [of p ob] np_index_mod [of "py_int (obstacle_phi p ob)"]
  by (simp add: bucket_of_def)

subsection \<open>The loop that fills the expected ranges\<close>

lemma Min_insert_smaller:
  fixes c r :: real
  assumes "finite S" "r \<le> c"
  shows "Min (insert c (insert r S)) = Min (insert r S)"
proof -
  have "Min (insert c (insert r S)) = min c (Min (insert r S))"
    using assms(1) by (simp add: Min_insert)
  moreover have "Min (insert r S) \<le> r" using assms(1) by (simp add: Min_le)
  ultimately show ?thesis using assms(2) by (simp add: min_def)
qed

lemma merge_min_Some: "merge_min (Some c) rs = Some (Min (insert c (set rs)))"
proof (induction rs arbitrary: c)
  case Nil
  then show ?case by simp
next
  case (Cons r rs)
  show ?case
  proof (cases "r < c")
    case True
    have "Min (insert c (insert r (set rs))) = Min (insert r (set rs))"
      by (rule Min_insert_smaller) (use True in simp_all)
    then show ?thesis using True Cons.IH [of r] by simp
  next
    case False
    have "Min (insert r (insert c (set rs))) = Min (insert c (set rs))"
      by (rule Min_insert_smaller) (use False in simp_all)
    then have "Min (insert c (insert r (set rs))) = Min (insert c (set rs))"
      by (simp only: insert_commute)
    then show ?thesis using False Cons.IH [of c] by simp
  qed
qed

lemma merge_min_None:
  "merge_min None rs = (if rs = [] then None else Some (Min (set rs)))"
  by (cases rs) (simp_all add: merge_min_Some)

lemma fill_expected_spec:
  "valid_entries (length ex) es \<Longrightarrow>
   \<exists>ex'. fill_expected es ex = Inr ex' \<and> length ex' = length ex \<and>
         (\<forall>b < length ex. ex' ! b = merge_min (ex ! b) (entries_of (length ex) es b))"
proof (induction es arbitrary: ex)
  case Nil
  then show ?case by (simp add: entries_of_def)
next
  case (Cons e es)
  obtain phi rho where e: "e = (phi, rho)" by (cases e)
  from Cons.prems obtain idx where idx: "np_index (length ex) (py_int phi) = Inr idx" "idx < length ex"
    and rest: "valid_entries (length ex) es"
    by (auto simp: valid_entries_def e split: sum.splits)
  define ex1 where "ex1 = (if (case ex ! idx of None \<Rightarrow> True | Some cur \<Rightarrow> cutoff rho < cur)
             then ex[idx := Some (cutoff rho)] else ex)"
  have len1: "length ex1 = length ex" by (simp add: ex1_def)
  have step: "fill_expected (e # es) ex = fill_expected es ex1"
    by (simp add: e idx ex1_def)
  from Cons.IH [of ex1] rest len1 obtain ex' where
    r: "fill_expected es ex1 = Inr ex'" "length ex' = length ex"
       "\<forall>b < length ex. ex' ! b = merge_min (ex1 ! b) (entries_of (length ex) es b)"
    by auto
  have "ex' ! b = merge_min (ex ! b) (entries_of (length ex) (e # es) b)" if b: "b < length ex" for b
  proof (cases "b = idx")
    case True
    have "ex1 ! b = (if (case ex ! b of None \<Rightarrow> True | Some cur \<Rightarrow> cutoff rho < cur) then Some (cutoff rho) else ex ! b)"
      using True b by (simp add: ex1_def)
    then show ?thesis using r(3) b True idx by (simp add: entries_of_def e)
  next
    case False
    have "ex1 ! b = ex ! b" using False by (simp add: ex1_def)
    then show ?thesis using r(3) b False idx by (auto simp: entries_of_def e)
  qed
  then show ?case using step r by simp
qed

lemma zip_phi_rho:
  "zip (map (obstacle_phi p) obs) (map (obstacle_rho p) obs) =
   map (\<lambda>ob. (obstacle_phi p ob, obstacle_rho p ob)) obs"
  by (induction obs) simp_all

lemma entries_valid:
  "valid_entries 360 (map (\<lambda>ob. (obstacle_phi p ob, obstacle_rho p ob)) obs)"
proof -
  have "case np_index 360 (py_int (obstacle_phi p ob)) of Inl _ \<Rightarrow> False | Inr b \<Rightarrow> b < 360" for ob
    using bucket_of_valid [of p ob] by (auto simp: bucket_of_def)
  then show ?thesis by (simp add: valid_entries_def list_all_iff)
qed

lemma entries_bucket_ranges:
  "entries_of 360 (map (\<lambda>ob. (obstacle_phi p ob, obstacle_rho p ob)) obs) b = bucket_ranges obs p b"
  by (simp add: entries_of_def bucket_ranges_def bucket_of_def filter_map o_def)

lemma expected_lidar_spec:
  "\<exists>ex. expected_lidar obs p = Inr ex \<and> length ex = 360 \<and>
        (\<forall>b<360. ex ! b = (if bucket_ranges obs p b = [] then 0 else Min (set (bucket_ranges obs p b))))"
proof -
  let ?es = "map (\<lambda>ob. (obstacle_phi p ob, obstacle_rho p ob)) obs"
  have "valid_entries (length (replicate 360 (None :: real option))) ?es"
    using entries_valid [of p obs] by simp
  from fill_expected_spec [OF this] obtain filled where
    f: "fill_expected ?es (replicate 360 None) = Inr filled" "length filled = 360"
       "\<forall>b<360. filled ! b = merge_min None (bucket_ranges obs p b)"
    by (auto simp: entries_bucket_ranges)
  have "expected_lidar obs p = Inr (map nan_to_zero filled)"
    by (simp add: expected_lidar_def zip_phi_rho f(1))
  moreover have "length (map nan_to_zero filled) = 360" using f(2) by simp
  moreover have "\<forall>b<360. map nan_to_zero filled ! b =
      (if bucket_ranges obs p b = [] then 0 else Min (set (bucket_ranges obs p b)))"
    using f(2) f(3) by (simp add: merge_min_None nan_to_zero_def)
  ultimately show ?thesis by blast
qed

lemma nan_to_zero_single:
  "i < n \<Longrightarrow> map nan_to_zero ((replicate n None)[i := Some v]) = (replicate n 0)[i := v]"
  by (simp add: list_eq_iff_nth_eq nth_list_update nan_to_zero_def)

lemma replicate_update_same: "(replicate n v)[i := v] = replicate n v"
  by (cases "i < n") (auto simp: list_eq_iff_nth_eq nth_list_update)

lemma butlast_replicate_Suc: "butlast (replicate (Suc n) v) = replicate n v"
  by (induction n) simp_all

lemma phi_east: "obstacle_phi (Particle 0 0 0 w) (r, 0) = 0" if "0 < r"
  using that by (simp add: obstacle_phi_def obstacle_bearing_def obstacle_phi_rad_def obstacle_shifted_def renormalize_def arctan2_def rad2deg_def np_round_def)

lemma expected_example:
  "expected_lidar [(2, 0), (4, 0)] (Particle 0 0 0 1) = Inr (replicate 360 0)"
  by (simp add: expected_lidar_def phi_east obstacle_rho_def obstacle_shifted_def py_int_def np_index_def cutoff_def nan_to_zero_single replicate_update_same)

lemma bucket_ranges_example:
  "bucket_ranges [(2, 0), (4, 0)] (Particle 0 0 0 1) 0 = [2, 0]"
  by (simp add: bucket_ranges_def bucket_of_def phi_east obstacle_rho_def obstacle_shifted_def py_int_def np_index_def cutoff_def)

lemma expected_single:
  "expected_lidar [(2, 0)] (Particle 0 0 0 1) = Inr (2 # replicate 359 0)"
proof -
  have "(replicate 360 (0::real))[0 := 2] = 2 # replicate 359 0"
    using replicate_Suc [of 359 "0::real"] by simp
  then show ?thesis
  by (simp add: expected_lidar_def phi_east obstacle_rho_def obstacle_shifted_def py_int_def np_index_def cutoff_def nan_to_zero_single)
qed

lemma sensor_weight_example:
  "calculate_sensor_weight (Some (replicate 361 0)) [(2, 0)] (Particle 0 0 0 1) = Inr (1 / 8)"
proof -
  have "butlast (replicate 361 (0::real)) = replicate 360 0"
    using butlast_replicate_Suc [of 360 "0::real"] by simp
  moreover have "replicate 360 (0::real) = 0 # replicate 359 0"
    using replicate_Suc [of 359 "0::real"] by simp
  ultimately have b: "butlast (replicate 361 (0::real)) = 0 # replicate 359 0"
    by simp
  show ?thesis
    by (simp add: calculate_sensor_weight_def expected_single b compare_lidar_def broadcast_sub_def zip_replicate power_divide)
qed

subsection \<open>The claims on the sensor likelihood model\<close>

text \<open>
  The comparison as a sum over all buckets: a bucket contributes whenever its difference is
  positive, whatever its actual reading is.
\<close>

lemma sum_filter_as_if:
  fixes f :: "real \<Rightarrow> real"
  shows "sum_list (map f (filter P xs)) = sum_list (map (\<lambda>v. if P v then f v else 0) xs)"
  by (induction xs) simp_all

lemma compare_lidar_every_bucket:
  "length actual = length expected \<Longrightarrow>
   compare_lidar actual expected =
     Inr (sum_list (map2 (\<lambda>a e. if 0 < \<bar>a - e\<bar> then (1 / \<bar>a - e\<bar>) ^ 3 else 0) actual expected))"
  by (simp add: compare_lidar_def broadcast_sub_def sum_filter_as_if o_def map_zip_map2 case_prod_unfold
           del: zero_less_abs_iff)

text \<open>
  C1. The claim: a bucket contributes \<open>(1 / |actual - expected|)^3\<close> only when its actual
  reading is strictly positive and the difference is strictly positive. The code computes
  the mask \<open>actual_lidar > 0.0\<close> and never applies it: every bucket with a positive
  difference contributes. Here the scan reads 0 in every bucket (361 ranges, the last
  dropped), one obstacle lies 2 units ahead of the particle, so bucket 0 expects 2 and
  has the only positive difference; the code returns the weight \<open>(1/2)^3 = 1/8\<close>, where
  the claim gives 0.
\<close>

theorem sensor_weight_counts_unmasked_bucket:
  "calculate_sensor_weight (Some (replicate 361 0)) [(2, 0)] (Particle 0 0 0 1) = Inr (1 / 8)"
  by (rule sensor_weight_example)

text \<open>
  What line 245 computes: the world-frame bearing \<open>atan2(oy - particle.y, ox - particle.x)\<close>
  plus the particle's heading, renormalised by \<open>atan2(sin, cos)\<close> into \<open>(-pi, pi]\<close>; the
  result differs from that sum by a whole number of turns.
\<close>

lemma bearing_adds_heading:
  "obstacle_bearing p ob =
     arctan2 (sin (arctan2 (snd ob - y_of p) (fst ob - x_of p) + theta_of p))
             (cos (arctan2 (snd ob - y_of p) (fst ob - x_of p) + theta_of p)) \<and>
   - pi < obstacle_bearing p ob \<and> obstacle_bearing p ob \<le> pi \<and>
   (\<exists>k::int. obstacle_bearing p ob =
      arctan2 (snd ob - y_of p) (fst ob - x_of p) + theta_of p + 2 * pi * of_int k)"
proof -
  have d: "obstacle_phi_rad p ob = arctan2 (snd ob - y_of p) (fst ob - x_of p) + theta_of p"
    by (simp add: obstacle_phi_rad_def obstacle_shifted_def)
  have "obstacle_bearing p ob =
     arctan2 (sin (arctan2 (snd ob - y_of p) (fst ob - x_of p) + theta_of p))
             (cos (arctan2 (snd ob - y_of p) (fst ob - x_of p) + theta_of p))"
    by (simp add: obstacle_bearing_def renormalize_def d)
  moreover have "- pi < obstacle_bearing p ob" "obstacle_bearing p ob \<le> pi"
    using bearing_range [of p ob] by simp_all
  moreover have "\<exists>k::int. obstacle_bearing p ob =
      arctan2 (snd ob - y_of p) (fst ob - x_of p) + theta_of p + 2 * pi * of_int k"
    using renormalize_representative [of "obstacle_phi_rad p ob"]
    unfolding obstacle_bearing_def d by blast
  ultimately show ?thesis by blast
qed

text \<open>
  For a particle at the origin heading \<open>pi/2\<close> and an obstacle at \<open>(1, 0)\<close> the code's
  bearing is \<open>pi/2\<close>; with the heading subtracted it is \<open>-pi/2\<close>.
\<close>

lemma bearing_sign_example:
  "obstacle_bearing (Particle 0 0 (pi / 2) 1) (1, 0) = pi / 2 \<and>
   arctan2 (sin (arctan2 (0 - 0) (1 - 0) - pi / 2)) (cos (arctan2 (0 - 0) (1 - 0) - pi / 2)) = - (pi / 2) \<and>
   obstacle_bearing (Particle 0 0 (pi / 2) 1) (1, 0) \<noteq>
   arctan2 (sin (arctan2 (0 - 0) (1 - 0) - pi / 2)) (cos (arctan2 (0 - 0) (1 - 0) - pi / 2))"
  by (simp add: obstacle_bearing_def obstacle_phi_rad_def obstacle_shifted_def renormalize_def arctan2_def)

text \<open>
  C2. The claim: the robot-relative bearing of an obstacle is its world-frame bearing
  MINUS the particle's heading, renormalised. Line 245 adds the heading. The heading is the
  yaw in the map frame, the expected ranges are compared index by index with the scan,
  whose index is the bearing relative to the robot, and line 236 subtracts the
  particle's position for the same change of frame; so the relative bearing is the
  world bearing minus the heading, as the claim has it. Here the particle is at the
  origin and heads along +y (\<open>theta = pi/2\<close>), and the obstacle is at \<open>(0, 1)\<close>, dead ahead
  of it: the code's bearing is \<open>pi\<close> and the obstacle lands in bucket 180, directly
  behind; with the heading subtracted the bearing is 0.
\<close>

theorem heading_added_turns_obstacle_ahead_behind:
  "obstacle_bearing (Particle 0 0 (pi / 2) 1) (0, 1) = pi \<and>
   bucket_of (Particle 0 0 (pi / 2) 1) (0, 1) = Inr 180 \<and>
   renormalize (arctan2 (1 - 0) (0 - 0) - pi / 2) = 0"
proof -
  have b: "obstacle_bearing (Particle 0 0 (pi / 2) 1) (0, 1) = pi"
    by (simp add: obstacle_bearing_def obstacle_phi_rad_def obstacle_shifted_def renormalize_def arctan2_def)
  have "obstacle_phi (Particle 0 0 (pi / 2) 1) (0, 1) = 180"
    by (simp add: obstacle_phi_def b rad2deg_def np_round_def)
  then have "bucket_of (Particle 0 0 (pi / 2) 1) (0, 1) = Inr 180"
    by (simp add: bucket_of_def py_int_def np_index_def)
  moreover have "renormalize (arctan2 (1 - 0) (0 - 0) - pi / 2) = 0"
    by (simp add: renormalize_def arctan2_def)
  ultimately show ?thesis using b by simp
qed

text \<open>
  C3, as amended. The expected range of a bucket is the minimum, over the obstacles that
  land in it, of their ranges after the cutoff (a range above 3.0 counts as 0); a bucket
  no obstacle lands in holds 0; the array always has 360 entries and the loop never
  raises. For a bucket with one obstacle at range 2.0 and one at range 4.0 the ranges
  after the cutoff are 2 and 0, and the expected range is 0.
\<close>

theorem expected_range_is_bucket_minimum:
  "(\<exists>ex. expected_lidar obstacles p = Inr ex \<and> length ex = 360 \<and>
        (\<forall>b<360. ex ! b = (if bucket_ranges obstacles p b = [] then 0
                            else Min (set (bucket_ranges obstacles p b))))) \<and>
   bucket_ranges [(2, 0), (4, 0)] (Particle 0 0 0 1) 0 = [cutoff 2, cutoff 4] \<and>
   cutoff 2 = 2 \<and> cutoff 4 = 0 \<and>
   (\<exists>ex. expected_lidar [(2, 0), (4, 0)] (Particle 0 0 0 1) = Inr ex \<and> ex ! 0 = 0)"
proof -
  have "\<exists>ex. expected_lidar [(2, 0), (4, 0)] (Particle 0 0 0 1) = Inr ex \<and> ex ! 0 = 0"
    by (simp add: expected_example)
  moreover have "bucket_ranges [(2, 0), (4, 0)] (Particle 0 0 0 1) 0 = [cutoff 2, cutoff 4]"
    by (simp add: bucket_ranges_example cutoff_def)
  moreover have "cutoff 2 = 2" "cutoff 4 = 0" by (simp_all add: cutoff_def)
  ultimately show ?thesis using expected_lidar_spec [of obstacles p] by blast
qed

text \<open>The theorem used at the two obstacles of the example, for buckets 0 and 1.\<close>

theorem expected_range_is_bucket_minimum_witness:
  "\<exists>ex. expected_lidar [(2, 0), (4, 0)] (Particle 0 0 0 1) = Inr ex \<and> length ex = 360 \<and>
        ex ! 0 = Min (set [2, 0]) \<and> ex ! 1 = 0"
proof -
  from expected_range_is_bucket_minimum [of "[(2, 0), (4, 0)]" "Particle 0 0 0 1"]
  obtain ex where e: "expected_lidar [(2, 0), (4, 0)] (Particle 0 0 0 1) = Inr ex" "length ex = 360"
    "\<forall>b<360. ex ! b = (if bucket_ranges [(2, 0), (4, 0)] (Particle 0 0 0 1) b = [] then 0
                            else Min (set (bucket_ranges [(2, 0), (4, 0)] (Particle 0 0 0 1) b)))"
    by blast
  have "ex ! 0 = Min (set [2, 0])" using e(3) by (simp add: bucket_ranges_example)
  moreover have "bucket_ranges [(2, 0), (4, 0)] (Particle 0 0 0 1) 1 = []"
    by (simp add: bucket_ranges_def bucket_of_def phi_east py_int_def np_index_def)
  then have "ex ! 1 = 0" using e(3) by simp
  ultimately show ?thesis using e(1,2) by blast
qed

text \<open>
  C3 as stated gives the example bucket the expected range 2.0; the code gives it 0.
\<close>

theorem expected_range_example_counterexample:
  "expected_lidar [(2, 0), (4, 0)] (Particle 0 0 0 1) = Inr (replicate 360 0) \<and>
   replicate 360 (0::real) ! 0 \<noteq> 2"
  by (simp add: expected_example)

lemma bearing_half_degree:
  "obstacle_bearing (Particle 0 0 0 1) (2 * cos (pi / 360), 2 * sin (pi / 360)) = pi / 360"
proof -
  have p: "0 < pi" by (rule pi_gt_zero)
  have r: "- pi < pi / 360" "pi / 360 \<le> pi" using p by simp_all
  have "arctan2 (2 * sin (pi / 360)) (2 * cos (pi / 360)) = pi / 360"
    by (rule arctan2_polar) (use r in simp_all)
  then have e: "obstacle_phi_rad (Particle 0 0 0 1) (2 * cos (pi / 360), 2 * sin (pi / 360)) = pi / 360"
    by (simp add: obstacle_phi_rad_def obstacle_shifted_def)
  have "renormalize (pi / 360) = pi / 360" using r by (rule renormalize_id)
  then show ?thesis unfolding obstacle_bearing_def e .
qed

lemma rho_half_degree:
  "obstacle_rho (Particle 0 0 0 1) (2 * cos (pi / 360), 2 * sin (pi / 360)) = 2"
proof -
  have sc: "(sin (pi / 360))\<^sup>2 + (cos (pi / 360))\<^sup>2 = 1"
    by (rule sin_cos_squared_add)
  have "(2 * cos (pi / 360))\<^sup>2 + (2 * sin (pi / 360))\<^sup>2 = 2\<^sup>2"
    using sc by algebra
  then have "sqrt ((2 * cos (pi / 360))\<^sup>2 + (2 * sin (pi / 360))\<^sup>2) = 2"
    by (simp only: real_sqrt_abs)
  then show ?thesis unfolding obstacle_rho_def obstacle_shifted_def Let_def by simp
qed

lemma deg_half: "rad2deg (pi / 360) = 1 / 2"
  by (simp add: rad2deg_def)

lemma half_degree_bucket:
  "bucket_of (Particle 0 0 0 1) (2 * cos (pi / 360), 2 * sin (pi / 360)) = Inr 0"
proof -
  have d: "rad2deg (obstacle_bearing (Particle 0 0 0 1) (2 * cos (pi / 360), 2 * sin (pi / 360))) = 1 / 2"
    by (simp only: bearing_half_degree deg_half)
  show ?thesis
    by (simp add: bucket_of_def obstacle_phi_def d np_round_def py_int_def np_index_def)
qed

text \<open>
  C4, as amended. The renormalised bearing in degrees is rounded to the nearest integer,
  ties to the even integer; that integer lies in \<open>[-180, 180]\<close>, and it is used as the
  index, where a negative index counts from the end of the 360-entry array: the bucket
  is the integer modulo 360, in \<open>[0, 359]\<close>, and the indexing never raises. The obstacle
  at range 2 and bearing 0.5 degrees of a particle at the origin with heading 0 lands in
  bucket 0.
\<close>

theorem bearing_discretization:
  "- 180 \<le> py_int (obstacle_phi p ob) \<and> py_int (obstacle_phi p ob) \<le> 180 \<and>
   \<bar>of_int (py_int (obstacle_phi p ob)) - rad2deg (obstacle_bearing p ob)\<bar> \<le> 1 / 2 \<and>
   (rad2deg (obstacle_bearing p ob) - of_int \<lfloor>rad2deg (obstacle_bearing p ob)\<rfloor> = 1 / 2 \<longrightarrow>
      even (py_int (obstacle_phi p ob))) \<and>
   bucket_of p ob = Inr (nat (py_int (obstacle_phi p ob) mod 360)) \<and>
   nat (py_int (obstacle_phi p ob) mod 360) < 360 \<and>
   bucket_of (Particle 0 0 0 1) (2 * cos (pi / 360), 2 * sin (pi / 360)) = Inr 0"
proof -
  have i: "py_int (obstacle_phi p ob) = rint (rad2deg (obstacle_bearing p ob))"
    by (simp add: obstacle_phi_def np_round_rint py_int_of_int)
  have r: "- 180 \<le> py_int (obstacle_phi p ob)" "py_int (obstacle_phi p ob) \<le> 180"
    using idx_range [of p ob] by simp_all
  have n: "\<bar>of_int (py_int (obstacle_phi p ob)) - rad2deg (obstacle_bearing p ob)\<bar> \<le> 1 / 2"
    unfolding i by (rule rint_near)
  have t: "rad2deg (obstacle_bearing p ob) - of_int \<lfloor>rad2deg (obstacle_bearing p ob)\<rfloor> = 1 / 2 \<longrightarrow>
      even (py_int (obstacle_phi p ob))"
    unfolding i by (simp add: rint_tie_even)
  have b: "bucket_of p ob = Inr (nat (py_int (obstacle_phi p ob) mod 360))"
       "nat (py_int (obstacle_phi p ob) mod 360) < 360"
    using np_index_mod [OF r] by (simp_all add: bucket_of_def)
  show ?thesis using r n t b half_degree_bucket by blast
qed

text \<open>
  The obstacle at range 2 and bearing 0.5 degrees of a particle at the origin with heading
  0: the bearing in degrees is exactly the tie 1/2, rounded to the even integer 0, bucket 0.
\<close>

theorem bearing_discretization_witness:
  "rad2deg (obstacle_bearing (Particle 0 0 0 1) (2 * cos (pi / 360), 2 * sin (pi / 360))) = 1 / 2 \<and>
   obstacle_rho (Particle 0 0 0 1) (2 * cos (pi / 360), 2 * sin (pi / 360)) = 2 \<and>
   py_int (obstacle_phi (Particle 0 0 0 1) (2 * cos (pi / 360), 2 * sin (pi / 360))) = 0 \<and>
   even (py_int (obstacle_phi (Particle 0 0 0 1) (2 * cos (pi / 360), 2 * sin (pi / 360)))) \<and>
   bucket_of (Particle 0 0 0 1) (2 * cos (pi / 360), 2 * sin (pi / 360)) = Inr 0"
proof -
  let ?p = "Particle 0 0 0 1" and ?ob = "(2 * cos (pi / 360), 2 * sin (pi / 360))"
  have d: "rad2deg (obstacle_bearing ?p ?ob) = 1 / 2"
    by (simp only: bearing_half_degree deg_half)
  have tie: "rad2deg (obstacle_bearing ?p ?ob) - of_int \<lfloor>rad2deg (obstacle_bearing ?p ?ob)\<rfloor> = 1 / 2"
    by (simp add: d)
  have z: "py_int (obstacle_phi ?p ?ob) = 0"
    by (simp add: obstacle_phi_def d np_round_def py_int_def)
  from bearing_discretization [of ?p ?ob] tie
  have "even (py_int (obstacle_phi ?p ?ob))"
    and "bucket_of ?p ?ob = Inr (nat (py_int (obstacle_phi ?p ?ob) mod 360))"
    by blast+
  then show ?thesis using d z rho_half_degree by simp
qed

text \<open>
  C4 as stated puts the rounded integer in \<open>[0, 359]\<close>; for an obstacle at bearing
  \<open>-90\<close> degrees it is \<open>-90\<close> (the bucket, by the negative index, is 270).
\<close>

theorem rounded_bearing_negative_counterexample:
  "py_int (obstacle_phi (Particle 0 0 0 1) (0, - 1)) = - 90 \<and>
   \<not> 0 \<le> py_int (obstacle_phi (Particle 0 0 0 1) (0, - 1)) \<and>
   bucket_of (Particle 0 0 0 1) (0, - 1) = Inr 270"
proof -
  have "obstacle_bearing (Particle 0 0 0 1) (0, - 1) = - (pi / 2)"
    by (simp add: obstacle_bearing_def obstacle_phi_rad_def obstacle_shifted_def renormalize_def arctan2_def)
  then have "obstacle_phi (Particle 0 0 0 1) (0, - 1) = - 90"
    by (simp add: obstacle_phi_def rad2deg_def np_round_def)
  then show ?thesis by (simp add: bucket_of_def py_int_def np_index_def)
qed

section \<open>Properties of the resampler\<close>

lemma length_accumulate_from: "length (accumulate_from acc ws) = length ws"
  by (induction ws arbitrary: acc) simp_all

lemma last_accumulate_from:
  "ws \<noteq> [] \<Longrightarrow> last (accumulate_from acc ws) = acc + sum_list ws"
proof (induction ws arbitrary: acc)
  case Nil
  then show ?case by simp
next
  case (Cons w ws)
  show ?case
  proof (cases ws)
    case Nil
    then show ?thesis by simp
  next
    case (Cons v vs)
    then have "ws \<noteq> []" by simp
    then have "last (accumulate_from (acc + w) ws) = acc + w + sum_list ws"
      by (rule Cons.IH)
    moreover have "accumulate_from (acc + w) ws \<noteq> []" using Cons by simp
    ultimately show ?thesis by simp
  qed
qed

lemma py_random_unit: "unit_draws g \<Longrightarrow> unit_draws (snd (py_random g))"
  by (simp add: unit_draws_def py_random_def)

lemma py_random_range: "unit_draws g \<Longrightarrow> 0 \<le> fst (py_random g) \<and> fst (py_random g) < 1"
  by (simp add: unit_draws_def py_random_def)

lemma draw_weighted_length:
  "length (fst (draw_weighted population cum tot k g)) = k"
  by (induction k arbitrary: g) (simp_all add: case_prod_beta)

lemma draw_weighted_unit:
  "unit_draws g \<Longrightarrow> unit_draws (snd (draw_weighted population cum tot k g))"
proof (induction k arbitrary: g)
  case 0
  then show ?case by simp
next
  case (Suc k)
  have "unit_draws (snd (py_random g))" using Suc.prems by (rule py_random_unit)
  then have "unit_draws (snd (draw_weighted population cum tot k (snd (py_random g))))"
    by (rule Suc.IH)
  then show ?case by (simp add: case_prod_beta)
qed

text \<open>
  The bisection stays between its bounds, so every draw reads the population inside its
  range and every drawn particle is one of the input.
\<close>

lemma bisect_bounds:
  "lo \<le> hi \<Longrightarrow> lo \<le> bisect a v lo hi \<and> bisect a v lo hi \<le> hi"
proof (induction a v lo hi rule: bisect.induct)
  case (1 a v lo hi)
  show ?case
  proof (cases "lo < hi")
    case False
    then have "bisect a v lo hi = lo" by (subst bisect.simps) simp
    then show ?thesis using "1.prems" by simp
  next
    case True
    let ?mid = "(lo + hi) div 2"
    have m: "lo \<le> ?mid" "?mid < hi" using True by simp_all
    show ?thesis
    proof (cases "v < a ! ?mid")
      case left: True
      have "lo \<le> bisect a v lo ?mid \<and> bisect a v lo ?mid \<le> ?mid"
        using "1.IH"(1) [OF True left] m by simp
      moreover have "bisect a v lo hi = bisect a v lo ?mid"
        using True left by (subst bisect.simps) simp
      ultimately show ?thesis using m by simp
    next
      case right: False
      have "?mid + 1 \<le> bisect a v (?mid + 1) hi \<and> bisect a v (?mid + 1) hi \<le> hi"
        using "1.IH"(2) [OF True right] m by simp
      moreover have "bisect a v lo hi = bisect a v (?mid + 1) hi"
        using True right by (subst bisect.simps) simp
      ultimately show ?thesis using m by simp
    qed
  qed
qed

lemma draw_weighted_from_population:
  "population \<noteq> [] \<Longrightarrow> set (fst (draw_weighted population cum tot k g)) \<subseteq> set population"
proof (induction k arbitrary: g)
  case 0
  then show ?case by simp
next
  case (Suc k)
  have "bisect cum (fst (py_random g) * tot) 0 (length population - 1) \<le> length population - 1"
    using bisect_bounds [of 0 "length population - 1"] by simp
  then have "bisect cum (fst (py_random g) * tot) 0 (length population - 1) < length population"
    using Suc.prems by (cases population) simp_all
  then have "population ! bisect cum (fst (py_random g) * tot) 0 (length population - 1) \<in> set population"
    by (rule nth_mem)
  then show ?case using Suc.IH [OF Suc.prems] by (simp add: case_prod_beta)
qed

lemma choices_ok:
  assumes "0 < sum_list (map weight ps)"
  shows "choices ps (map weight ps) k g =
           (Inr (fst (draw_weighted ps (accumulate (map weight ps)) (sum_list (map weight ps)) k g)),
            snd (draw_weighted ps (accumulate (map weight ps)) (sum_list (map weight ps)) k g))"
proof -
  have ne: "ps \<noteq> []" using assms by auto
  have l: "length (accumulate (map weight ps)) = length ps"
    by (simp add: accumulate_def length_accumulate_from)
  have n: "accumulate (map weight ps) \<noteq> []" using l ne by auto
  have t: "last (accumulate (map weight ps)) = sum_list (map weight ps)"
    using ne by (simp add: accumulate_def last_accumulate_from)
  show ?thesis using assms by (simp add: choices_def l n t Let_def case_prod_beta)
qed

lemma jitter_length:
  "length (fst (jitter H xs xn ts tn cs h)) = length cs"
  by (induction cs arbitrary: h) (simp_all add: case_prod_beta)

lemma jitter_weights:
  "list_all (\<lambda>q. weight q = 1) (fst (jitter H xs xn ts tn cs h))"
  by (induction cs arbitrary: h) (simp_all add: case_prod_beta)

lemma sample_particles_ok:
  assumes "0 < sum_list (map weight ps)"
  shows "\<exists>qs g' h'. sample_particles H ps xs xn ts tn k g h = (Inr qs, g', h') \<and>
           length qs = k \<and> list_all (\<lambda>q. weight q = 1) qs \<and>
           g' = snd (draw_weighted ps (accumulate (map weight ps)) (sum_list (map weight ps)) k g)"
proof -
  let ?d = "draw_weighted ps (accumulate (map weight ps)) (sum_list (map weight ps)) k g"
  let ?j = "jitter H xs xn ts tn (fst ?d) h"
  have "sample_particles H ps xs xn ts tn k g h = (Inr (fst ?j), snd ?d, snd ?j)"
    by (simp add: sample_particles_def choices_ok [OF assms] case_prod_beta)
  moreover have "length (fst ?j) = k" by (simp add: jitter_length draw_weighted_length)
  moreover have "list_all (\<lambda>q. weight q = 1) (fst ?j)" by (rule jitter_weights)
  ultimately show ?thesis by blast
qed

text \<open>
  C7. For every particle set (weights non-negative, as the data model has them) with at
  least one strictly positive weight and every target count \<open>k\<close>, \<open>sample_particles\<close>
  returns without raising, and returns exactly \<open>k\<close> particles, whatever the size of the
  input, each with weight exactly 1; this holds for every behaviour of \<open>sample_normal\<close>
  and every state of the generators.
\<close>

theorem sample_particles_size:
  assumes "nonneg_weights ps" and "some_positive_weight ps"
  shows "\<exists>qs g' h'. sample_particles H ps xy_sigma xy_noise theta_sigma theta_noise k g h = (Inr qs, g', h') \<and>
           length qs = k \<and> list_all (\<lambda>q. weight q = 1) qs"
proof -
  have "0 < sum_list (map weight ps)" using assms by (rule positive_total)
  from sample_particles_ok [OF this, of H xy_sigma xy_noise theta_sigma theta_noise k g h]
  show ?thesis by blast
qed

text \<open>Two particles, one of weight zero, resampled to five.\<close>

theorem sample_particles_size_witness:
  "nonneg_weights [Particle 0 0 0 0, Particle 1 2 3 (1 / 2)] \<and>
   some_positive_weight [Particle 0 0 0 0, Particle 1 2 3 (1 / 2)] \<and>
   (\<exists>qs g' h'. sample_particles noiseless [Particle 0 0 0 0, Particle 1 2 3 (1 / 2)]
                  (25 / 100) (1 / 100) (15 / 100 * pi) 0 5 (\<lambda>n. 0) (\<lambda>n. 0) = (Inr qs, g', h') \<and>
                length qs = 5 \<and> list_all (\<lambda>q. weight q = 1) qs)"
proof -
  have a: "nonneg_weights [Particle 0 0 0 0, Particle 1 2 3 (1 / 2)]"
    by (simp add: nonneg_weights_def)
  have b: "some_positive_weight [Particle 0 0 0 0, Particle 1 2 3 (1 / 2)]"
    by (simp add: some_positive_weight_def)
  show ?thesis using a b sample_particles_size [OF a b] by blast
qed

section \<open>Properties of the pose estimator\<close>

lemma weighted_column:
  "sum_list (map2 (\<lambda>r w. f r * w) (map pose_of ps) (map weight ps)) =
   sum_list (map (\<lambda>p. f (pose_of p) * weight p) ps)"
  by (induction ps) simp_all

lemma pose_of_rescaled: "map pose_of (rescaled ps) = map pose_of ps"
  by (simp add: rescaled_def pose_of_def)

lemma pose_estimate_value:
  assumes "sum_list (map weight ps) \<noteq> 0"
  shows "pose_estimate (rescaled ps) ps =
           Inr (PoseTuple (sum_list (map (\<lambda>p. x_of p * weight p) ps) / sum_list (map weight ps))
                          (sum_list (map (\<lambda>p. y_of p * weight p) ps) / sum_list (map weight ps))
                          (sum_list (map (\<lambda>p. theta_of p * weight p) ps) / sum_list (map weight ps)))"
  using assms
  by (simp add: pose_estimate_def np_average_def pose_of_rescaled weighted_column pose_of_def Let_def)

lemma set_particles_estimate:
  assumes "normalize_weights ps = Inr qs" and "pose_estimate qs ps = Inr e"
  shows "robot_pose (fst (set_particles stamp ps self)) = Some e"
    and "particles (fst (set_particles stamp ps self)) = Some qs"
  using assms by (simp_all add: set_particles_def split: prod.splits sum.splits)

text \<open>
  C8. Whenever the weights do not sum to zero, the pose handed on by \<open>set_particles\<close> is
  the weighted arithmetic mean of x, of y and of theta, each on its own, over the
  normalised particle set: with the normalised weights (which sum to 1) it is the sum of
  weight times coordinate, which is the sum over the given particles divided by their
  total weight. Theta is averaged as the plain number it is.
\<close>

theorem pose_estimate_is_weighted_mean:
  assumes "sum_list (map weight ps) \<noteq> 0"
  shows "\<exists>qs. normalize_weights ps = Inr qs \<and>
              particles (fst (set_particles stamp ps self)) = Some qs \<and>
              sum_list (map weight qs) = 1 \<and>
              robot_pose (fst (set_particles stamp ps self)) =
                Some (PoseTuple (sum_list (map (\<lambda>q. x_of q * weight q) qs))
                                (sum_list (map (\<lambda>q. y_of q * weight q) qs))
                                (sum_list (map (\<lambda>q. theta_of q * weight q) qs))) \<and>
              robot_pose (fst (set_particles stamp ps self)) =
                Some (PoseTuple (sum_list (map (\<lambda>p. x_of p * weight p) ps) / sum_list (map weight ps))
                                (sum_list (map (\<lambda>p. y_of p * weight p) ps) / sum_list (map weight ps))
                                (sum_list (map (\<lambda>p. theta_of p * weight p) ps) / sum_list (map weight ps)))"
proof -
  let ?t = "sum_list (map weight ps)"
  have n: "normalize_weights ps = Inr (rescaled ps)"
    using assms by (simp add: normalize_weights_nonzero rescaled_def)
  have e: "pose_estimate (rescaled ps) ps =
           Inr (PoseTuple (sum_list (map (\<lambda>p. x_of p * weight p) ps) / ?t)
                          (sum_list (map (\<lambda>p. y_of p * weight p) ps) / ?t)
                          (sum_list (map (\<lambda>p. theta_of p * weight p) ps) / ?t))"
    using assms by (rule pose_estimate_value)
  have one: "sum_list (map weight (rescaled ps)) = 1"
    using assms by (simp add: rescaled_def o_def sum_list_divide_const)
  have x: "sum_list (map (\<lambda>q. x_of q * weight q) (rescaled ps)) = sum_list (map (\<lambda>p. x_of p * weight p) ps) / ?t"
    by (simp add: rescaled_def o_def sum_list_divide_const)
  have y: "sum_list (map (\<lambda>q. y_of q * weight q) (rescaled ps)) = sum_list (map (\<lambda>p. y_of p * weight p) ps) / ?t"
    by (simp add: rescaled_def o_def sum_list_divide_const)
  have t: "sum_list (map (\<lambda>q. theta_of q * weight q) (rescaled ps)) = sum_list (map (\<lambda>p. theta_of p * weight p) ps) / ?t"
    by (simp add: rescaled_def o_def sum_list_divide_const)
  have r: "robot_pose (fst (set_particles stamp ps self)) =
      Some (PoseTuple (sum_list (map (\<lambda>p. x_of p * weight p) ps) / ?t)
                          (sum_list (map (\<lambda>p. y_of p * weight p) ps) / ?t)
                          (sum_list (map (\<lambda>p. theta_of p * weight p) ps) / ?t))"
    using n e by (rule set_particles_estimate(1))
  have p: "particles (fst (set_particles stamp ps self)) = Some (rescaled ps)"
    using n e by (rule set_particles_estimate(2))
  show ?thesis using n p one r x y t by simp
qed

text \<open>
  The two particles of the claim, x = 0 and x = 2 with weight 0.5 each and the same y
  and theta: the estimated x is 1.
\<close>

theorem pose_estimate_is_weighted_mean_witness:
  "sum_list (map weight [Particle 0 5 1 (1 / 2), Particle 2 5 1 (1 / 2)]) \<noteq> 0 \<and>
   robot_pose (fst (set_particles 7 [Particle 0 5 1 (1 / 2), Particle 2 5 1 (1 / 2)]
                      (init [] 0 (\<lambda>n. 0) (\<lambda>n. 0)))) = Some (PoseTuple 1 5 1)"
proof -
  have h: "sum_list (map weight [Particle 0 5 1 (1 / 2), Particle 2 5 1 (1 / 2)]) \<noteq> 0" by simp
  from pose_estimate_is_weighted_mean [OF h, of 7 "init [] 0 (\<lambda>n. 0) (\<lambda>n. 0)"]
  have "robot_pose (fst (set_particles 7 [Particle 0 5 1 (1 / 2), Particle 2 5 1 (1 / 2)]
                      (init [] 0 (\<lambda>n. 0) (\<lambda>n. 0)))) = Some (PoseTuple 1 5 1)"
    by auto
  then show ?thesis using h by blast
qed

section \<open>Properties of the odometry callback\<close>

lemma moved_too_little_straight:
  "moved_too_little (PoseTuple a 0 t) = (\<bar>a\<bar> < 1 / 100 \<and> t < 5 / 100)"
  by (simp add: moved_too_little_def)

lemma set_particles_keeps:
  "last_pose (fst (set_particles stamp ps self)) = last_pose self"
  "is_updating (fst (set_particles stamp ps self)) = is_updating self"
  by (simp_all add: set_particles_def split: prod.splits sum.splits)

lemma run_cycle_not_skipped:
  "snd (run_cycle H now msg ps d self) \<noteq> Skipped"
  "snd (run_cycle H now msg ps d self) \<noteq> Dropped"
  "snd (run_cycle H now msg ps d self) \<noteq> Initialised"
  by (simp_all add: run_cycle_def split: prod.splits sum.splits option.splits)

lemma set_particles_keeps_eq:
  "set_particles stamp ps self = (s', r) \<Longrightarrow> last_pose s' = last_pose self"
  using set_particles_keeps(1) [of stamp ps self] by simp

lemma run_cycle_processed_last_pose:
  "snd (run_cycle H now msg ps d self) = Processed \<Longrightarrow>
   last_pose (fst (run_cycle H now msg ps d self)) = Some (msg_pose msg)"
  by (auto simp: run_cycle_def split: prod.splits sum.splits option.splits
           dest: set_particles_keeps_eq)

lemma run_cycle_outcome:
  "run_cycle H now msg ps d self = (s', out) \<Longrightarrow> out = Processed \<or> (\<exists>e. out = Raised e)"
  using run_cycle_not_skipped [of H now msg ps d self] by (cases out) simp_all

lemma toggle_is_updating:
  "\<not> is_updating self \<Longrightarrow> self\<lparr>is_updating := True\<rparr>\<lparr>is_updating := False\<rparr> = self"
  by (cases self) simp

lemma toggle_is_updating_last_pose:
  "\<not> is_updating self \<Longrightarrow>
   self\<lparr>is_updating := True, last_pose := v\<rparr>\<lparr>is_updating := False\<rparr> = self\<lparr>last_pose := v\<rparr>"
  by (cases self) simp

lemma update_cases:
  "update H now msg self =
     (if is_updating self \<or> msg_stamp msg < last_update_real self then (self, Dropped)
      else if last_pose self = None \<or> particles self = None
           then (self\<lparr>last_pose := Some (msg_pose msg)\<rparr>, Initialised)
      else if moved_too_little (delta_pose_of H (the (last_pose self)) (msg_pose msg))
           then (self, Skipped)
      else ((fst (run_cycle H now msg (the (particles self))
                    (delta_pose_of H (the (last_pose self)) (msg_pose msg))
                    (self\<lparr>is_updating := True\<rparr>)))\<lparr>is_updating := False\<rparr>,
            snd (run_cycle H now msg (the (particles self))
                    (delta_pose_of H (the (last_pose self)) (msg_pose msg))
                    (self\<lparr>is_updating := True\<rparr>))))"
  by (auto simp: update_def update_body_def toggle_is_updating toggle_is_updating_last_pose
                 case_prod_beta split: option.splits)

lemma update_drop: "guard_drops msg self \<Longrightarrow> update H now msg self = (self, Dropped)"
  by (simp add: update_cases guard_drops_def)

lemma update_init:
  "\<not> guard_drops msg self \<Longrightarrow> uninitialised self \<Longrightarrow>
   update H now msg self = (self\<lparr>last_pose := Some (msg_pose msg)\<rparr>, Initialised)"
  by (simp add: update_cases guard_drops_def uninitialised_def)

lemma update_skip:
  "\<not> guard_drops msg self \<Longrightarrow> \<not> uninitialised self \<Longrightarrow>
   moved_too_little (cycle_delta H msg self) \<Longrightarrow> update H now msg self = (self, Skipped)"
  by (auto simp: update_cases guard_drops_def uninitialised_def cycle_delta_def)

lemma update_cycle:
  "\<not> guard_drops msg self \<Longrightarrow> \<not> uninitialised self \<Longrightarrow>
   \<not> moved_too_little (cycle_delta H msg self) \<Longrightarrow>
   update H now msg self =
     ((fst (run_cycle H now msg (the (particles self)) (cycle_delta H msg self)
              (self\<lparr>is_updating := True\<rparr>)))\<lparr>is_updating := False\<rparr>,
      snd (run_cycle H now msg (the (particles self)) (cycle_delta H msg self)
              (self\<lparr>is_updating := True\<rparr>)))"
  by (auto simp: update_cases guard_drops_def uninitialised_def cycle_delta_def)

lemma update_four_ways:
  obtains (drop) "guard_drops msg self"
  | (init) "\<not> guard_drops msg self" "uninitialised self"
  | (skip) "\<not> guard_drops msg self" "\<not> uninitialised self" "moved_too_little (cycle_delta H msg self)"
  | (cycle) "\<not> guard_drops msg self" "\<not> uninitialised self" "\<not> moved_too_little (cycle_delta H msg self)"
  by blast

lemma update_skipped:
  assumes "snd (update H now msg self) = Skipped"
  shows "fst (update H now msg self) = self"
proof (cases rule: update_four_ways [where msg = msg and self = self and H = H])
  case drop
  then show ?thesis by (simp add: update_drop)
next
  case init
  then show ?thesis using assms by (simp add: update_init)
next
  case skip
  then show ?thesis by (simp add: update_skip)
next
  case cycle
  then show ?thesis using assms by (simp add: update_cycle run_cycle_not_skipped)
qed

lemma update_dropped:
  assumes "snd (update H now msg self) = Dropped"
  shows "fst (update H now msg self) = self"
proof (cases rule: update_four_ways [where msg = msg and self = self and H = H])
  case drop
  then show ?thesis by (simp add: update_drop)
next
  case init
  then show ?thesis using assms by (simp add: update_init)
next
  case skip
  then show ?thesis by (simp add: update_skip)
next
  case cycle
  then show ?thesis using assms by (simp add: update_cycle run_cycle_not_skipped)
qed

lemma update_initialised:
  assumes "snd (update H now msg self) = Initialised"
  shows "last_pose (fst (update H now msg self)) = Some (msg_pose msg) \<and>
         particles (fst (update H now msg self)) = particles self \<and>
         (last_pose self = None \<or> particles self = None)"
proof (cases rule: update_four_ways [where msg = msg and self = self and H = H])
  case drop
  then show ?thesis using assms by (simp add: update_drop)
next
  case init
  then show ?thesis by (simp add: update_init uninitialised_def)
next
  case skip
  then show ?thesis using assms by (simp add: update_skip)
next
  case cycle
  then show ?thesis using assms by (simp add: update_cycle run_cycle_not_skipped)
qed

lemma update_processed:
  assumes "snd (update H now msg self) = Processed"
  shows "last_pose (fst (update H now msg self)) = Some (msg_pose msg) \<and>
         (\<exists>lp ps. last_pose self = Some lp \<and> particles self = Some ps \<and>
           \<not> moved_too_little (delta_pose_of H lp (msg_pose msg)) \<and>
           update H now msg self =
             ((fst (run_cycle H now msg ps (delta_pose_of H lp (msg_pose msg))
                      (self\<lparr>is_updating := True\<rparr>)))\<lparr>is_updating := False\<rparr>, Processed))"
proof (cases rule: update_four_ways [where msg = msg and self = self and H = H])
  case drop
  then show ?thesis using assms by (simp add: update_drop)
next
  case init
  then show ?thesis using assms by (simp add: update_init)
next
  case skip
  then show ?thesis using assms by (simp add: update_skip)
next
  case cycle
  obtain lp ps where l: "last_pose self = Some lp" "particles self = Some ps"
    using cycle(2) by (auto simp: uninitialised_def)
  have d: "cycle_delta H msg self = delta_pose_of H lp (msg_pose msg)"
    by (simp add: cycle_delta_def l)
  have u: "update H now msg self =
     ((fst (run_cycle H now msg ps (delta_pose_of H lp (msg_pose msg))
              (self\<lparr>is_updating := True\<rparr>)))\<lparr>is_updating := False\<rparr>,
      snd (run_cycle H now msg ps (delta_pose_of H lp (msg_pose msg))
              (self\<lparr>is_updating := True\<rparr>)))"
    using update_cycle [OF cycle, of now] by (simp add: d l)
  have p: "snd (run_cycle H now msg ps (delta_pose_of H lp (msg_pose msg))
              (self\<lparr>is_updating := True\<rparr>)) = Processed"
    using assms u by simp
  have "last_pose (fst (update H now msg self)) = Some (msg_pose msg)"
    using u run_cycle_processed_last_pose [OF p] by simp
  moreover have "\<not> moved_too_little (delta_pose_of H lp (msg_pose msg))"
    using cycle(3) d by simp
  ultimately show ?thesis using l u p by simp
qed

lemma run_all_skipped:
  "all_skipped H events self \<Longrightarrow> run H events self = self"
proof (induction events arbitrary: self)
  case Nil
  then show ?case by simp
next
  case (Cons ev events)
  obtain now msg where ev: "ev = (now, msg)" by (cases ev)
  have s: "snd (update H now msg self) = Skipped"
    and r: "all_skipped H events (fst (update H now msg self))"
    using Cons.prems by (simp_all add: ev)
  have "fst (update H now msg self) = self" using s by (rule update_skipped)
  then show ?case using Cons.IH [of self] r by (simp add: ev)
qed

lemma unit_weights_total:
  "list_all (\<lambda>q. weight q = 1) qs \<Longrightarrow> sum_list (map weight qs) = real (length qs)"
  by (induction qs) simp_all

lemma draw_uniform_ok:
  assumes "population \<noteq> []" and "unit_draws g"
  shows "\<exists>chosen g'. draw_uniform population k g = (Inr chosen, g')"
  using assms(2)
proof (induction k arbitrary: g)
  case 0
  then show ?case by simp
next
  case (Suc k)
  let ?u = "fst (py_random g)" and ?n = "length population"
  have u: "0 \<le> ?u" "?u < 1" using py_random_range [OF Suc.prems] by simp_all
  have n: "0 < real ?n" using assms(1) by simp
  have "?u * real ?n < real ?n" using u(2) n by simp
  then have "\<lfloor>?u * real ?n\<rfloor> < int ?n" by (simp add: floor_less_iff)
  then have i: "nat \<lfloor>?u * real ?n\<rfloor> < ?n" using n by linarith
  have "unit_draws (snd (py_random g))" using Suc.prems by (rule py_random_unit)
  from Suc.IH [OF this] obtain chosen g' where
    "draw_uniform population k (snd (py_random g)) = (Inr chosen, g')" by blast
  then show ?case using i by (simp add: case_prod_beta)
qed

lemma set_particles_ok:
  assumes "sum_list (map weight ps) \<noteq> 0" and "unit_draws (random_state self)"
  shows "snd (set_particles stamp ps self) = None"
proof -
  have ne: "ps \<noteq> []" using assms(1) by auto
  have n: "normalize_weights ps = Inr (rescaled ps)"
    using assms(1) by (simp add: normalize_weights_nonzero rescaled_def)
  have "rescaled ps \<noteq> []" using ne by (simp add: rescaled_def)
  from draw_uniform_ok [OF this assms(2)] obtain chosen g' where
    d: "draw_uniform (rescaled ps) 30 (random_state self) = (Inr chosen, g')" by blast
  show ?thesis
    by (simp add: set_particles_def n pose_estimate_value [OF assms(1)] d)
qed

lemma apply_motion_weights:
  "map weight (fst (apply_motion H ps d sigma h)) = map weight ps"
  by (simp add: apply_motion_def case_prod_beta Let_def o_def)

lemma reweigh_no_scan:
  "last_lidar self = None \<Longrightarrow>
   reweigh self ps = Inr (map (\<lambda>p. Particle (x_of p) (y_of p) (theta_of p) 1) ps)"
  by (simp add: reweigh_def calculate_sensor_weight_def comprehension_total)

lemma predict_and_weigh_moved:
  assumes w: "0 < sum_list (map weight ps)" and n: "\<not> nan_weights self"
  shows "\<exists>moved g' h'.
           predict_and_weigh H ps d self =
             (self\<lparr>random_state := g', sampler_state := h'\<rparr>, reweigh self moved) \<and>
           length moved = NUM_PARTICLES \<and>
           g' = snd (draw_weighted ps (accumulate (map weight ps)) (sum_list (map weight ps))
                       NUM_PARTICLES (random_state self))"
proof -
  from sample_particles_ok [OF w, of H INITIAL_STATE_XY_SIGMA INITIAL_STATE_XY_NOISE
      INITIAL_STATE_THETA_SIGMA INITIAL_STATE_THETA_NOISE NUM_PARTICLES "random_state self" "sampler_state self"]
  obtain qs g' h' where
    s: "sample_particles H ps INITIAL_STATE_XY_SIGMA INITIAL_STATE_XY_NOISE
      INITIAL_STATE_THETA_SIGMA INITIAL_STATE_THETA_NOISE NUM_PARTICLES (random_state self) (sampler_state self) = (Inr qs, g', h')"
    and len: "length qs = NUM_PARTICLES"
    and g': "g' = snd (draw_weighted ps (accumulate (map weight ps)) (sum_list (map weight ps)) NUM_PARTICLES (random_state self))"
    by blast
  define moved where "moved = fst (apply_motion H qs d (15 / 100) h')"
  define h'' where "h'' = snd (apply_motion H qs d (15 / 100) h')"
  have am: "apply_motion H qs d (3 / 20) h' = (moved, h'')" by (simp add: moved_def h''_def)
  have lm: "length moved = NUM_PARTICLES"
    using len by (simp add: moved_def apply_motion_def case_prod_beta Let_def)
  have "predict_and_weigh H ps d self =
          (self\<lparr>random_state := g', sampler_state := h''\<rparr>, reweigh self moved)"
    using n by (simp add: predict_and_weigh_def s am)
  then show ?thesis using lm g' by blast
qed

lemma run_cycle_processed:
  assumes w: "0 < sum_list (map weight ps)"
    and l: "last_lidar self = None"
    and g: "unit_draws (random_state self)"
    and n: "\<not> nan_weights self"
  shows "snd (run_cycle H now msg ps d self) = Processed"
proof -
  from predict_and_weigh_moved [OF w n, of H d]
  obtain moved g' h' where
    p: "predict_and_weigh H ps d self =
          (self\<lparr>random_state := g', sampler_state := h'\<rparr>, reweigh self moved)"
    and lm: "length moved = NUM_PARTICLES"
    and g': "g' = snd (draw_weighted ps (accumulate (map weight ps)) (sum_list (map weight ps)) NUM_PARTICLES (random_state self))"
    by blast
  have ug: "unit_draws g'" unfolding g' using g by (rule draw_weighted_unit)
  define weighted where "weighted = map (\<lambda>p. Particle (x_of p) (y_of p) (theta_of p) 1) moved"
  have rw: "reweigh self moved = Inr weighted"
    using l by (simp add: weighted_def reweigh_no_scan)
  have "sum_list (map weight weighted) = real (length weighted)"
    by (rule unit_weights_total) (simp add: weighted_def list_all_iff)
  then have tw: "sum_list (map weight weighted) \<noteq> 0"
    using lm by (simp add: weighted_def NUM_PARTICLES_def)
  have "snd (set_particles (msg_stamp msg) weighted
                (self\<lparr>random_state := g', sampler_state := h', last_pose := Some (msg_pose msg)\<rparr>)) = None"
    by (rule set_particles_ok [OF tw]) (simp add: ug)
  then obtain s' where sp: "set_particles (msg_stamp msg) weighted
                (self\<lparr>random_state := g', sampler_state := h', last_pose := Some (msg_pose msg)\<rparr>) = (s', None)"
    by (metis prod.collapse)
  show ?thesis by (simp add: run_cycle_def p rw sp)
qed

lemma settled_fields:
  "last_pose settled = Some (PoseTuple 0 0 0)"
  "particles settled = Some (replicate 300 (Particle 0 0 0 (1 / 300)))"
  "last_lidar settled = None"
  "\<not> is_updating settled"
  "last_update_real settled = 0"
  "random_state settled = (\<lambda>n. 0)"
  "\<not> nan_weights settled"
  by (simp_all add: settled_def init_def)

lemma settled_ready:
  "\<not> guard_drops msg settled" "\<not> uninitialised settled"
  "cycle_delta noiseless (Odometry t (PoseTuple a 0 0)) settled = PoseTuple (- a) 0 0"
  by (simp_all add: guard_drops_def uninitialised_def cycle_delta_def delta_pose_of_def
        settled_fields noiseless_def)

lemma settled_skips:
  "\<bar>a\<bar> < 1 / 100 \<Longrightarrow> update noiseless now (Odometry t (PoseTuple a 0 0)) settled = (settled, Skipped)"
  by (rule update_skip) (simp_all add: settled_ready moved_too_little_straight)

lemma settled_total: "sum_list (replicate 300 (1 / 300 :: real)) = 1"
  by (simp add: sum_list_replicate)

lemma settled_processes:
  assumes "\<not> \<bar>a\<bar> < 1 / 100"
  shows "snd (update noiseless now (Odometry t (PoseTuple a 0 0)) settled) = Processed"
proof -
  have m: "\<not> moved_too_little (cycle_delta noiseless (Odometry t (PoseTuple a 0 0)) settled)"
    using assms by (simp add: settled_ready moved_too_little_straight)
  have "snd (run_cycle noiseless now (Odometry t (PoseTuple a 0 0)) (the (particles settled))
               (cycle_delta noiseless (Odometry t (PoseTuple a 0 0)) settled)
               (settled\<lparr>is_updating := True\<rparr>)) = Processed"
    by (rule run_cycle_processed) (simp_all add: settled_fields settled_total unit_draws_def)
  then show ?thesis
    using update_cycle [OF settled_ready(1) settled_ready(2) m, of now] by simp
qed

text \<open>
  C5. The claim: a delta below both thresholds is skipped, and a delta exceeding either
  threshold, in distance or in ABSOLUTE angle, triggers a full cycle. The check of line
  184 compares the signed \<open>delta_pose[2]\<close> with 0.05, so the first half holds and the
  second fails for every rotation in the negative direction. Here the filter last
  processed the pose \<open>(0, 0, 0)\<close> and the odometry reports \<open>(0, 0, 1.0)\<close>: the delta is
  \<open>(0, 0, -1.0)\<close>, the check takes it for no motion, and the callback returns with the
  state unchanged.
\<close>

theorem update_skips_negative_rotation:
  "delta_pose_of noiseless (PoseTuple 0 0 0) (PoseTuple 0 0 1) = PoseTuple 0 0 (- 1) \<and>
   moved_too_little (PoseTuple 0 0 (- 1)) \<and>
   update noiseless 9 (Odometry 5 (PoseTuple 0 0 1)) settled = (settled, Skipped)"
proof -
  have d: "delta_pose_of noiseless (PoseTuple 0 0 0) (PoseTuple 0 0 1) = PoseTuple 0 0 (- 1)"
    by (simp add: delta_pose_of_def noiseless_def)
  have m: "moved_too_little (PoseTuple 0 0 (- 1))"
    by (simp add: moved_too_little_straight)
  have c: "cycle_delta noiseless (Odometry 5 (PoseTuple 0 0 1)) settled = PoseTuple 0 0 (- 1)"
    by (simp add: cycle_delta_def settled_fields d)
  have "update noiseless 9 (Odometry 5 (PoseTuple 0 0 1)) settled = (settled, Skipped)"
    by (rule update_skip) (simp_all add: settled_ready c m)
  then show ?thesis using d m by simp
qed

text \<open>Which calls assign \<open>last_pose\<close>, and the two ways a cycle raises.\<close>

lemma predict_and_weigh_keeps:
  "last_pose (fst (predict_and_weigh H ps d self)) = last_pose self"
  by (simp add: predict_and_weigh_def case_prod_beta split: sum.splits)

lemma run_cycle_last_pose:
  "last_pose (fst (run_cycle H now msg ps d self)) =
     (case snd (predict_and_weigh H ps d self) of
        Inl e \<Rightarrow> last_pose self
      | Inr weighted \<Rightarrow> Some (msg_pose msg))"
proof (cases "snd (predict_and_weigh H ps d self)")
  case (Inl e)
  then have "run_cycle H now msg ps d self = (fst (predict_and_weigh H ps d self), Raised e)"
    by (simp add: run_cycle_def case_prod_beta)
  then show ?thesis using Inl by (simp add: predict_and_weigh_keeps)
next
  case (Inr weighted)
  let ?s1 = "(fst (predict_and_weigh H ps d self))\<lparr>last_pose := Some (msg_pose msg)\<rparr>"
  have "last_pose (fst (set_particles (msg_stamp msg) weighted ?s1)) = Some (msg_pose msg)"
    by (simp add: set_particles_keeps)
  then show ?thesis using Inr
    by (cases "snd (set_particles (msg_stamp msg) weighted ?s1)")
       (simp_all add: run_cycle_def case_prod_beta)
qed

lemma update_last_pose:
  "last_pose (fst (update H now msg self)) =
     (if records_pose H msg self then Some (msg_pose msg) else last_pose self)"
proof (cases rule: update_four_ways [where msg = msg and self = self and H = H])
  case drop
  then show ?thesis by (simp add: update_drop records_pose_def)
next
  case init
  then show ?thesis by (simp add: update_init records_pose_def)
next
  case skip
  then show ?thesis by (simp add: update_skip records_pose_def reaches_assignment_def)
next
  case cycle
  have "last_pose (fst (update H now msg self)) =
          (case snd (predict_and_weigh H (the (particles self)) (cycle_delta H msg self)
                       (self\<lparr>is_updating := True\<rparr>)) of
             Inl e \<Rightarrow> last_pose self
           | Inr weighted \<Rightarrow> Some (msg_pose msg))"
    by (simp add: update_cycle [OF cycle] run_cycle_last_pose split: sum.splits)
  then show ?thesis using cycle
    by (simp add: records_pose_def reaches_assignment_def split: sum.splits)
qed

lemma run_cycle_outcome_cases:
  "snd (run_cycle H now msg ps d self) = Processed \<or>
   (\<exists>e. snd (run_cycle H now msg ps d self) = Raised e)"
  using run_cycle_not_skipped [of H now msg ps d self]
  by (cases "snd (run_cycle H now msg ps d self)") simp_all

lemma run_cycle_processed_weighs:
  "snd (run_cycle H now msg ps d self) = Processed \<Longrightarrow>
   \<exists>weighted. snd (predict_and_weigh H ps d self) = Inr weighted"
  by (cases "snd (predict_and_weigh H ps d self)") (simp_all add: run_cycle_def case_prod_beta)

lemma update_initialised_records:
  assumes "snd (update H now msg self) = Initialised"
  shows "records_pose H msg self"
proof (cases rule: update_four_ways [where msg = msg and self = self and H = H])
  case drop
  then show ?thesis using assms by (simp add: update_drop)
next
  case init
  then show ?thesis by (simp add: records_pose_def)
next
  case skip
  then show ?thesis using assms by (simp add: update_skip)
next
  case cycle
  then show ?thesis using assms by (simp add: update_cycle run_cycle_not_skipped)
qed

lemma update_processed_records:
  assumes "snd (update H now msg self) = Processed"
  shows "records_pose H msg self"
proof (cases rule: update_four_ways [where msg = msg and self = self and H = H])
  case drop
  then show ?thesis using assms by (simp add: update_drop)
next
  case init
  then show ?thesis by (simp add: records_pose_def)
next
  case skip
  then show ?thesis using assms by (simp add: update_skip)
next
  case cycle
  have "snd (run_cycle H now msg (the (particles self)) (cycle_delta H msg self)
               (self\<lparr>is_updating := True\<rparr>)) = Processed"
    using assms by (simp add: update_cycle [OF cycle])
  from run_cycle_processed_weighs [OF this] show ?thesis using cycle
    by (auto simp: records_pose_def reaches_assignment_def)
qed

lemma update_unrecorded:
  assumes "snd (update H now msg self) = Skipped \<or> snd (update H now msg self) = Dropped"
  shows "\<not> records_pose H msg self"
proof (cases rule: update_four_ways [where msg = msg and self = self and H = H])
  case drop
  then show ?thesis by (simp add: records_pose_def)
next
  case init
  then show ?thesis using assms by (simp add: update_init)
next
  case skip
  then show ?thesis by (simp add: records_pose_def reaches_assignment_def)
next
  case cycle
  then show ?thesis using assms by (simp add: update_cycle run_cycle_not_skipped)
qed

lemma update_raised:
  assumes "snd (update H now msg self) = Raised e"
  shows "\<exists>lp ps. last_pose self = Some lp \<and> particles self = Some ps \<and>
           \<not> moved_too_little (delta_pose_of H lp (msg_pose msg)) \<and>
           last_pose (fst (update H now msg self)) =
             (case snd (predict_and_weigh H ps (delta_pose_of H lp (msg_pose msg))
                          (self\<lparr>is_updating := True\<rparr>)) of
                Inl e' \<Rightarrow> Some lp
              | Inr weighted \<Rightarrow> Some (msg_pose msg))"
proof (cases rule: update_four_ways [where msg = msg and self = self and H = H])
  case drop
  then show ?thesis using assms by (simp add: update_drop)
next
  case init
  then show ?thesis using assms by (simp add: update_init)
next
  case skip
  then show ?thesis using assms by (simp add: update_skip)
next
  case cycle
  obtain lp ps where l: "last_pose self = Some lp" "particles self = Some ps"
    using cycle(2) by (auto simp: uninitialised_def)
  have d: "cycle_delta H msg self = delta_pose_of H lp (msg_pose msg)"
    by (simp add: cycle_delta_def l)
  have "last_pose (fst (update H now msg self)) =
             (case snd (predict_and_weigh H ps (delta_pose_of H lp (msg_pose msg))
                          (self\<lparr>is_updating := True\<rparr>)) of
                Inl e' \<Rightarrow> Some lp
              | Inr weighted \<Rightarrow> Some (msg_pose msg))"
    using update_cycle [OF cycle, of now]
    by (simp add: run_cycle_last_pose d l split: sum.splits)
  moreover have "\<not> moved_too_little (delta_pose_of H lp (msg_pose msg))"
    using cycle(3) d by simp
  ultimately show ?thesis using l by blast
qed

lemma run_latest_recorded:
  "last_pose (run H events self) = latest_recorded H events self (last_pose self)"
proof (induction events arbitrary: self)
  case Nil
  then show ?case by simp
next
  case (Cons ev events)
  obtain now msg where ev: "ev = (now, msg)" by (cases ev)
  show ?case
    using Cons.IH [of "fst (update H now msg self)"]
    by (simp add: ev update_last_pose)
qed

lemma expected_no_obstacles: "expected_lidar [] p = Inr (replicate 360 0)"
  by (simp add: expected_lidar_def nan_to_zero_def)

lemma weigh_short_scan:
  "calculate_sensor_weight (Some (replicate 360 0)) [] p = Inl ValueError"
proof -
  have "butlast (replicate 360 (0::real)) = replicate 359 0"
    using butlast_replicate_Suc [of 359 "0::real"] by simp
  then show ?thesis
    by (simp add: calculate_sensor_weight_def expected_no_obstacles compare_lidar_def broadcast_sub_def)
qed

lemma weigh_zero_scan:
  "calculate_sensor_weight (Some (replicate 361 0)) [] p = Inr 0"
proof -
  have "butlast (replicate 361 (0::real)) = replicate 360 0"
    using butlast_replicate_Suc [of 360 "0::real"] by simp
  then show ?thesis
    by (simp add: calculate_sensor_weight_def expected_no_obstacles compare_lidar_def
                  broadcast_sub_def zip_replicate)
qed

lemma reweigh_short_scan:
  assumes "last_lidar self = Some (replicate 360 0)" "map_obstacles self = []" "ps \<noteq> []"
  shows "reweigh self ps = Inl ValueError"
  using assms by (simp add: reweigh_def weigh_short_scan comprehension_raises)

lemma reweigh_zero_scan:
  assumes "last_lidar self = Some (replicate 361 0)" "map_obstacles self = []"
  shows "reweigh self ps = Inr (map (\<lambda>p. Particle (x_of p) (y_of p) (theta_of p) 0) ps)"
  using assms by (simp add: reweigh_def weigh_zero_scan comprehension_total)

lemma scanned_fields:
  "last_pose (on_lidar r settled) = Some (PoseTuple 0 0 0)"
  "particles (on_lidar r settled) = Some (replicate 300 (Particle 0 0 0 (1 / 300)))"
  "last_lidar (on_lidar r settled) = Some r"
  "map_obstacles (on_lidar r settled) = []"
  "\<not> is_updating (on_lidar r settled)"
  "last_update_real (on_lidar r settled) = 0"
  "\<not> nan_weights (on_lidar r settled)"
  by (simp_all add: on_lidar_def settled_def init_def)

lemma scanned_ready:
  "\<not> guard_drops msg (on_lidar r settled)" "\<not> uninitialised (on_lidar r settled)"
  "cycle_delta noiseless (Odometry t (PoseTuple a 0 0)) (on_lidar r settled) = PoseTuple (- a) 0 0"
  by (simp_all add: guard_drops_def uninitialised_def cycle_delta_def delta_pose_of_def
        scanned_fields noiseless_def)

lemma scanned_weigh:
  "\<exists>moved g' h'.
     predict_and_weigh H (replicate 300 (Particle 0 0 0 (1 / 300))) d
         ((on_lidar r settled)\<lparr>is_updating := True\<rparr>) =
       ((on_lidar r settled)\<lparr>is_updating := True, random_state := g', sampler_state := h'\<rparr>,
        reweigh ((on_lidar r settled)\<lparr>is_updating := True\<rparr>) moved) \<and>
     length moved = 300"
proof -
  have w: "0 < sum_list (map weight (replicate 300 (Particle 0 0 0 (1 / 300))))"
    by (simp add: settled_total)
  have n: "\<not> nan_weights ((on_lidar r settled)\<lparr>is_updating := True\<rparr>)"
    by (simp add: scanned_fields)
  from predict_and_weigh_moved [OF w n, of H d] show ?thesis
    by (auto simp: NUM_PARTICLES_def)
qed

lemma short_scan_raises_early:
  assumes "\<not> \<bar>a\<bar> < 1 / 100"
  shows "snd (update noiseless now (Odometry t (PoseTuple a 0 0)) (on_lidar (replicate 360 0) settled))
           = Raised ValueError"
    and "snd (predict_and_weigh noiseless (replicate 300 (Particle 0 0 0 (1 / 300))) (PoseTuple (- a) 0 0)
               ((on_lidar (replicate 360 0) settled)\<lparr>is_updating := True\<rparr>)) = Inl ValueError"
proof -
  let ?s = "on_lidar (replicate 360 0) settled"
  let ?m = "Odometry t (PoseTuple a 0 0)"
  from scanned_weigh [of noiseless "PoseTuple (- a) 0 0" "replicate 360 0"]
  obtain moved g' h' where
    p: "predict_and_weigh noiseless (replicate 300 (Particle 0 0 0 (1 / 300))) (PoseTuple (- a) 0 0)
          (?s\<lparr>is_updating := True\<rparr>) =
        (?s\<lparr>is_updating := True, random_state := g', sampler_state := h'\<rparr>,
         reweigh (?s\<lparr>is_updating := True\<rparr>) moved)"
    and lm: "length moved = 300" by blast
  have ne: "moved \<noteq> []" using lm by auto
  have r: "reweigh (?s\<lparr>is_updating := True\<rparr>) moved = Inl ValueError"
    by (rule reweigh_short_scan) (simp_all add: scanned_fields ne)
  show e: "snd (predict_and_weigh noiseless (replicate 300 (Particle 0 0 0 (1 / 300))) (PoseTuple (- a) 0 0)
               (?s\<lparr>is_updating := True\<rparr>)) = Inl ValueError"
    by (simp add: p r)
  have m: "\<not> moved_too_little (cycle_delta noiseless ?m ?s)"
    using assms by (simp add: scanned_ready moved_too_little_straight)
  show "snd (update noiseless now ?m ?s) = Raised ValueError"
    using update_cycle [OF scanned_ready(1) scanned_ready(2) m, of now] e
    by (simp add: scanned_ready scanned_fields run_cycle_def case_prod_beta)
qed

lemma zero_scan_raises_late:
  assumes "\<not> \<bar>a\<bar> < 1 / 100"
  shows "snd (update noiseless now (Odometry t (PoseTuple a 0 0)) (on_lidar (replicate 361 0) settled))
           = Raised ZeroDivisionError"
    and "\<exists>weighted.
           snd (predict_and_weigh noiseless (replicate 300 (Particle 0 0 0 (1 / 300))) (PoseTuple (- a) 0 0)
               ((on_lidar (replicate 361 0) settled)\<lparr>is_updating := True\<rparr>)) = Inr weighted"
    and "nan_weights (fst (update noiseless now (Odometry t (PoseTuple a 0 0)) (on_lidar (replicate 361 0) settled)))"
proof -
  let ?s = "on_lidar (replicate 361 0) settled"
  let ?m = "Odometry t (PoseTuple a 0 0)"
  from scanned_weigh [of noiseless "PoseTuple (- a) 0 0" "replicate 361 0"]
  obtain moved g' h' where
    p: "predict_and_weigh noiseless (replicate 300 (Particle 0 0 0 (1 / 300))) (PoseTuple (- a) 0 0)
          (?s\<lparr>is_updating := True\<rparr>) =
        (?s\<lparr>is_updating := True, random_state := g', sampler_state := h'\<rparr>,
         reweigh (?s\<lparr>is_updating := True\<rparr>) moved)"
    and lm: "length moved = 300" by blast
  define weighted where "weighted = map (\<lambda>p. Particle (x_of p) (y_of p) (theta_of p) 0) moved"
  have ne: "weighted \<noteq> []" using lm by (auto simp: weighted_def)
  have r: "reweigh (?s\<lparr>is_updating := True\<rparr>) moved = Inr weighted"
    unfolding weighted_def by (rule reweigh_zero_scan) (simp_all add: scanned_fields)
  have z: "sum_list (map weight weighted) = 0"
    by (rule zero_total) (simp add: weighted_def all_zero_weights_def list_all_iff)
  have nz: "normalize_weights weighted = Inl ZeroDivisionError"
    using ne z by (rule normalize_weights_zero)
  have e: "snd (predict_and_weigh noiseless (replicate 300 (Particle 0 0 0 (1 / 300))) (PoseTuple (- a) 0 0)
               (?s\<lparr>is_updating := True\<rparr>)) = Inr weighted"
    by (simp add: p r)
  then show "\<exists>weighted.
           snd (predict_and_weigh noiseless (replicate 300 (Particle 0 0 0 (1 / 300))) (PoseTuple (- a) 0 0)
               (?s\<lparr>is_updating := True\<rparr>)) = Inr weighted" by blast
  have m: "\<not> moved_too_little (cycle_delta noiseless ?m ?s)"
    using assms by (simp add: scanned_ready moved_too_little_straight)
  have u: "update noiseless now ?m ?s =
     ((fst (run_cycle noiseless now ?m (replicate 300 (Particle 0 0 0 (1 / 300))) (PoseTuple (- a) 0 0)
              (?s\<lparr>is_updating := True\<rparr>)))\<lparr>is_updating := False\<rparr>,
      snd (run_cycle noiseless now ?m (replicate 300 (Particle 0 0 0 (1 / 300))) (PoseTuple (- a) 0 0)
              (?s\<lparr>is_updating := True\<rparr>)))"
    using update_cycle [OF scanned_ready(1) scanned_ready(2) m, of now]
    by (simp add: scanned_ready scanned_fields)
  show "snd (update noiseless now ?m ?s) = Raised ZeroDivisionError"
    by (simp add: u run_cycle_def p r set_particles_def nz)
  show "nan_weights (fst (update noiseless now ?m ?s))"
    by (simp add: u run_cycle_def p r set_particles_def nz)
qed

lemma noiseless_delta:
  "delta_pose_of noiseless (PoseTuple 0 0 0) (PoseTuple a 0 0) = PoseTuple (- a) 0 0"
  by (simp add: delta_pose_of_def noiseless_def)

text \<open>
  C9, as amended. \<open>last_pose\<close> is assigned by the initialisation branch (taken while
  \<open>last_pose\<close> or the particle set is unset; it records the pose and processes nothing)
  and at line 208 of a cycle, once resampling, motion and weighing have not raised, just
  before \<open>set_particles\<close>: by every fully processed cycle, and by a cycle in which
  \<open>set_particles\<close> then raises. A cycle that is skipped by the minimum-motion check,
  dropped by the guard, or that raises before line 208 leaves \<open>last_pose\<close> as it was.
  So along any run \<open>last_pose\<close> is the pose of the latest call that assigned it; a
  skipped cycle changes nothing at all, and after any number of skipped events the next
  event is handled exactly as if they had not arrived: its delta is measured from the
  pose \<open>last_pose\<close> held before them and spans all the skipped displacement, not the step
  between two consecutive messages.
\<close>

theorem last_pose_anchor:
  "(snd (update H now msg self) = Skipped \<longrightarrow>
      fst (update H now msg self) = self \<and> \<not> records_pose H msg self) \<and>
   (snd (update H now msg self) = Dropped \<longrightarrow>
      fst (update H now msg self) = self \<and> \<not> records_pose H msg self) \<and>
   (snd (update H now msg self) = Initialised \<longrightarrow>
      records_pose H msg self \<and>
      last_pose (fst (update H now msg self)) = Some (msg_pose msg) \<and>
      particles (fst (update H now msg self)) = particles self \<and>
      (last_pose self = None \<or> particles self = None)) \<and>
   (snd (update H now msg self) = Processed \<longrightarrow>
      records_pose H msg self \<and>
      last_pose (fst (update H now msg self)) = Some (msg_pose msg) \<and>
      (\<exists>lp ps. last_pose self = Some lp \<and> particles self = Some ps \<and>
         \<not> moved_too_little (delta_pose_of H lp (msg_pose msg)) \<and>
         update H now msg self =
           ((fst (run_cycle H now msg ps (delta_pose_of H lp (msg_pose msg))
                    (self\<lparr>is_updating := True\<rparr>)))\<lparr>is_updating := False\<rparr>, Processed))) \<and>
   (snd (update H now msg self) = Raised e \<longrightarrow>
      (\<exists>lp ps. last_pose self = Some lp \<and> particles self = Some ps \<and>
         \<not> moved_too_little (delta_pose_of H lp (msg_pose msg)) \<and>
         last_pose (fst (update H now msg self)) =
           (case snd (predict_and_weigh H ps (delta_pose_of H lp (msg_pose msg))
                        (self\<lparr>is_updating := True\<rparr>)) of
              Inl e' \<Rightarrow> Some lp
            | Inr weighted \<Rightarrow> Some (msg_pose msg)))) \<and>
   last_pose (fst (update H now msg self)) =
     (if records_pose H msg self then Some (msg_pose msg) else last_pose self) \<and>
   last_pose (run H events self) = latest_recorded H events self (last_pose self) \<and>
   (all_skipped H events self \<longrightarrow>
      run H events self = self \<and>
      update H now msg (run H events self) = update H now msg self)"
proof -
  have sk: "snd (update H now msg self) = Skipped \<longrightarrow>
      fst (update H now msg self) = self \<and> \<not> records_pose H msg self"
  proof
    assume a: "snd (update H now msg self) = Skipped"
    show "fst (update H now msg self) = self \<and> \<not> records_pose H msg self"
      using update_skipped [OF a] update_unrecorded [of H now msg self] a by simp
  qed
  have dr: "snd (update H now msg self) = Dropped \<longrightarrow>
      fst (update H now msg self) = self \<and> \<not> records_pose H msg self"
  proof
    assume a: "snd (update H now msg self) = Dropped"
    show "fst (update H now msg self) = self \<and> \<not> records_pose H msg self"
      using update_dropped [OF a] update_unrecorded [of H now msg self] a by simp
  qed
  have ini: "snd (update H now msg self) = Initialised \<longrightarrow>
      records_pose H msg self \<and>
      last_pose (fst (update H now msg self)) = Some (msg_pose msg) \<and>
      particles (fst (update H now msg self)) = particles self \<and>
      (last_pose self = None \<or> particles self = None)"
  proof
    assume a: "snd (update H now msg self) = Initialised"
    show "records_pose H msg self \<and>
      last_pose (fst (update H now msg self)) = Some (msg_pose msg) \<and>
      particles (fst (update H now msg self)) = particles self \<and>
      (last_pose self = None \<or> particles self = None)"
      using update_initialised [OF a] update_initialised_records [OF a] by simp
  qed
  have pr: "snd (update H now msg self) = Processed \<longrightarrow>
      records_pose H msg self \<and>
      last_pose (fst (update H now msg self)) = Some (msg_pose msg) \<and>
      (\<exists>lp ps. last_pose self = Some lp \<and> particles self = Some ps \<and>
         \<not> moved_too_little (delta_pose_of H lp (msg_pose msg)) \<and>
         update H now msg self =
           ((fst (run_cycle H now msg ps (delta_pose_of H lp (msg_pose msg))
                    (self\<lparr>is_updating := True\<rparr>)))\<lparr>is_updating := False\<rparr>, Processed))"
  proof
    assume a: "snd (update H now msg self) = Processed"
    show "records_pose H msg self \<and>
      last_pose (fst (update H now msg self)) = Some (msg_pose msg) \<and>
      (\<exists>lp ps. last_pose self = Some lp \<and> particles self = Some ps \<and>
         \<not> moved_too_little (delta_pose_of H lp (msg_pose msg)) \<and>
         update H now msg self =
           ((fst (run_cycle H now msg ps (delta_pose_of H lp (msg_pose msg))
                    (self\<lparr>is_updating := True\<rparr>)))\<lparr>is_updating := False\<rparr>, Processed))"
      using update_processed [OF a] update_processed_records [OF a] by simp
  qed
  have ra: "snd (update H now msg self) = Raised e \<longrightarrow>
      (\<exists>lp ps. last_pose self = Some lp \<and> particles self = Some ps \<and>
         \<not> moved_too_little (delta_pose_of H lp (msg_pose msg)) \<and>
         last_pose (fst (update H now msg self)) =
           (case snd (predict_and_weigh H ps (delta_pose_of H lp (msg_pose msg))
                        (self\<lparr>is_updating := True\<rparr>)) of
              Inl e' \<Rightarrow> Some lp
            | Inr weighted \<Rightarrow> Some (msg_pose msg)))"
  proof
    assume a: "snd (update H now msg self) = Raised e"
    then show "\<exists>lp ps. last_pose self = Some lp \<and> particles self = Some ps \<and>
         \<not> moved_too_little (delta_pose_of H lp (msg_pose msg)) \<and>
         last_pose (fst (update H now msg self)) =
           (case snd (predict_and_weigh H ps (delta_pose_of H lp (msg_pose msg))
                        (self\<lparr>is_updating := True\<rparr>)) of
              Inl e' \<Rightarrow> Some lp
            | Inr weighted \<Rightarrow> Some (msg_pose msg))"
      by (rule update_raised)
  qed
  have st: "last_pose (fst (update H now msg self)) =
     (if records_pose H msg self then Some (msg_pose msg) else last_pose self)"
    by (rule update_last_pose)
  have rn: "last_pose (run H events self) = latest_recorded H events self (last_pose self)"
    by (rule run_latest_recorded)
  have al: "all_skipped H events self \<longrightarrow>
      run H events self = self \<and>
      update H now msg (run H events self) = update H now msg self"
    using run_all_skipped [of H events self] by simp
  show ?thesis using sk dr ini pr ra st rn al by (intro conjI)
qed

text \<open>
  From the pose \<open>(0, 0, 0)\<close> the odometry reports x = 0.005, 0.008 and 0.012. The first
  two are skipped and leave the state alone; the third is 0.004 from its predecessor,
  below the threshold, but 0.012 from \<open>last_pose\<close>, and is processed. Then the
  initialisation branch and the guard. The last four lines are the two ways a cycle
  raises, on a map without obstacles: a scan of 360 ranges (359 after the last is
  dropped) fails the comparison in the weighing, before line 208, and \<open>last_pose\<close> stays;
  a scan of 361 zeros gives every particle the weight 0, \<open>set_particles\<close> raises on the
  zero total, after line 208, and \<open>last_pose\<close> holds the new pose.
\<close>

theorem last_pose_anchor_witness:
  "all_skipped noiseless
     [(1, Odometry 1 (PoseTuple (5 / 1000) 0 0)), (2, Odometry 2 (PoseTuple (8 / 1000) 0 0))] settled \<and>
   run noiseless
     [(1, Odometry 1 (PoseTuple (5 / 1000) 0 0)), (2, Odometry 2 (PoseTuple (8 / 1000) 0 0))] settled = settled \<and>
   moved_too_little (delta_pose_of noiseless (PoseTuple (8 / 1000) 0 0) (PoseTuple (12 / 1000) 0 0)) \<and>
   snd (update noiseless 4 (Odometry 3 (PoseTuple (12 / 1000) 0 0))
          (run noiseless
             [(1, Odometry 1 (PoseTuple (5 / 1000) 0 0)), (2, Odometry 2 (PoseTuple (8 / 1000) 0 0))]
             settled)) = Processed \<and>
   last_pose (fst (update noiseless 4 (Odometry 3 (PoseTuple (12 / 1000) 0 0))
          (run noiseless
             [(1, Odometry 1 (PoseTuple (5 / 1000) 0 0)), (2, Odometry 2 (PoseTuple (8 / 1000) 0 0))]
             settled))) = Some (PoseTuple (12 / 1000) 0 0) \<and>
   snd (update noiseless 1 (Odometry 1 (PoseTuple 1 2 3)) (init [] 0 (\<lambda>n. 0) (\<lambda>n. 0))) = Initialised \<and>
   last_pose (fst (update noiseless 1 (Odometry 1 (PoseTuple 1 2 3)) (init [] 0 (\<lambda>n. 0) (\<lambda>n. 0))))
     = Some (PoseTuple 1 2 3) \<and>
   snd (update noiseless 1 (Odometry 1 (PoseTuple 1 2 3)) (settled\<lparr>is_updating := True\<rparr>)) = Dropped \<and>
   fst (update noiseless 1 (Odometry 1 (PoseTuple 1 2 3)) (settled\<lparr>is_updating := True\<rparr>))
     = settled\<lparr>is_updating := True\<rparr> \<and>
   snd (update noiseless 4 (Odometry 3 (PoseTuple (12 / 1000) 0 0)) (on_lidar (replicate 360 0) settled))
     = Raised ValueError \<and>
   last_pose (fst (update noiseless 4 (Odometry 3 (PoseTuple (12 / 1000) 0 0))
                     (on_lidar (replicate 360 0) settled))) = Some (PoseTuple 0 0 0) \<and>
   snd (update noiseless 4 (Odometry 3 (PoseTuple (12 / 1000) 0 0)) (on_lidar (replicate 361 0) settled))
     = Raised ZeroDivisionError \<and>
   last_pose (fst (update noiseless 4 (Odometry 3 (PoseTuple (12 / 1000) 0 0))
                     (on_lidar (replicate 361 0) settled))) = Some (PoseTuple (12 / 1000) 0 0)"
proof -
  let ?evs = "[(1, Odometry 1 (PoseTuple (5 / 1000) 0 0)), (2, Odometry 2 (PoseTuple (8 / 1000) 0 0))]"
  let ?m = "Odometry 3 (PoseTuple (12 / 1000) 0 0)"
  let ?i = "init [] 0 (\<lambda>n. 0) (\<lambda>n. 0)"
  let ?b = "settled\<lparr>is_updating := True\<rparr>"
  let ?short = "on_lidar (replicate 360 0) settled"
  let ?zero = "on_lidar (replicate 361 0) settled"
  let ?ps = "replicate 300 (Particle 0 0 0 (1 / 300))"
  have far: "\<not> \<bar>12 / 1000 :: real\<bar> < 1 / 100" by simp
  have sk: "all_skipped noiseless ?evs settled"
    by (simp add: settled_skips)
  have run: "run noiseless ?evs settled = settled"
    and same: "update noiseless 4 ?m (run noiseless ?evs settled) = update noiseless 4 ?m settled"
    using last_pose_anchor [of noiseless 4 ?m settled ValueError ?evs] sk by simp_all
  have near: "moved_too_little (delta_pose_of noiseless (PoseTuple (8 / 1000) 0 0) (PoseTuple (12 / 1000) 0 0))"
    by (simp add: delta_pose_of_def noiseless_def moved_too_little_straight)
  have pr: "snd (update noiseless 4 ?m (run noiseless ?evs settled)) = Processed"
    unfolding same by (rule settled_processes) simp
  have lp: "last_pose (fst (update noiseless 4 ?m (run noiseless ?evs settled))) = Some (PoseTuple (12 / 1000) 0 0)"
    using last_pose_anchor [of noiseless 4 ?m "run noiseless ?evs settled" ValueError "[]"] pr by simp
  have ini: "snd (update noiseless 1 (Odometry 1 (PoseTuple 1 2 3)) ?i) = Initialised"
    by (simp add: update_init guard_drops_def uninitialised_def init_def)
  have ilp: "last_pose (fst (update noiseless 1 (Odometry 1 (PoseTuple 1 2 3)) ?i)) = Some (PoseTuple 1 2 3)"
    using last_pose_anchor [of noiseless 1 "Odometry 1 (PoseTuple 1 2 3)" ?i ValueError "[]"] ini by simp
  have dr: "snd (update noiseless 1 (Odometry 1 (PoseTuple 1 2 3)) ?b) = Dropped"
    by (simp add: update_drop guard_drops_def)
  have dst: "fst (update noiseless 1 (Odometry 1 (PoseTuple 1 2 3)) ?b) = ?b"
    using last_pose_anchor [of noiseless 1 "Odometry 1 (PoseTuple 1 2 3)" ?b ValueError "[]"] dr by simp
  have re: "snd (update noiseless 4 ?m ?short) = Raised ValueError"
    by (rule short_scan_raises_early(1) [OF far])
  have early: "snd (predict_and_weigh noiseless ?ps (PoseTuple (- (12 / 1000)) 0 0)
                      (?short\<lparr>is_updating := True\<rparr>)) = Inl ValueError"
    by (rule short_scan_raises_early(2) [OF far])
  from last_pose_anchor [of noiseless 4 ?m ?short ValueError "[]"] re
  obtain lp1 ps1 where a1: "last_pose ?short = Some lp1" "particles ?short = Some ps1"
    and b1: "last_pose (fst (update noiseless 4 ?m ?short)) =
           (case snd (predict_and_weigh noiseless ps1 (delta_pose_of noiseless lp1 (msg_pose ?m))
                        (?short\<lparr>is_updating := True\<rparr>)) of
              Inl e' \<Rightarrow> Some lp1
            | Inr weighted \<Rightarrow> Some (msg_pose ?m))"
    by blast
  have "lp1 = PoseTuple 0 0 0" "ps1 = ?ps" using a1 by (simp_all add: scanned_fields)
  then have rel: "last_pose (fst (update noiseless 4 ?m ?short)) = Some (PoseTuple 0 0 0)"
    using b1 early by (simp add: noiseless_delta)
  have rl: "snd (update noiseless 4 ?m ?zero) = Raised ZeroDivisionError"
    by (rule zero_scan_raises_late(1) [OF far])
  from zero_scan_raises_late(2) [OF far] obtain weighted where
    late: "snd (predict_and_weigh noiseless ?ps (PoseTuple (- (12 / 1000)) 0 0)
                      (?zero\<lparr>is_updating := True\<rparr>)) = Inr weighted"
    by blast
  from last_pose_anchor [of noiseless 4 ?m ?zero ZeroDivisionError "[]"] rl
  obtain lp2 ps2 where a2: "last_pose ?zero = Some lp2" "particles ?zero = Some ps2"
    and b2: "last_pose (fst (update noiseless 4 ?m ?zero)) =
           (case snd (predict_and_weigh noiseless ps2 (delta_pose_of noiseless lp2 (msg_pose ?m))
                        (?zero\<lparr>is_updating := True\<rparr>)) of
              Inl e' \<Rightarrow> Some lp2
            | Inr weighted \<Rightarrow> Some (msg_pose ?m))"
    by blast
  have "lp2 = PoseTuple 0 0 0" "ps2 = ?ps" using a2 by (simp_all add: scanned_fields)
  then have rll: "last_pose (fst (update noiseless 4 ?m ?zero)) = Some (PoseTuple (12 / 1000) 0 0)"
    using b2 late by (simp add: noiseless_delta)
  show ?thesis using sk run near pr lp ini ilp dr dst re rel rl rll by (intro conjI)
qed

text \<open>
  C9 as stated has \<open>last_pose\<close> always hold the pose of the most recent fully processed
  cycle. On a filter that has no particle set yet the first odometry event is not
  processed (no particle set results) and \<open>last_pose\<close> holds its pose all the same.
\<close>

theorem last_pose_set_without_processing_counterexample:
  "snd (update noiseless 1 (Odometry 1 (PoseTuple 1 2 3)) (init [] 0 (\<lambda>n. 0) (\<lambda>n. 0))) = Initialised \<and>
   particles (fst (update noiseless 1 (Odometry 1 (PoseTuple 1 2 3)) (init [] 0 (\<lambda>n. 0) (\<lambda>n. 0)))) = None \<and>
   last_pose (init [] 0 (\<lambda>n. 0) (\<lambda>n. 0)) = None \<and>
   last_pose (fst (update noiseless 1 (Odometry 1 (PoseTuple 1 2 3)) (init [] 0 (\<lambda>n. 0) (\<lambda>n. 0))))
     = Some (PoseTuple 1 2 3)"
  by (simp add: update_init guard_drops_def uninitialised_def init_def)

end
